theory Spec2Isabelle
  imports Complex_Main
begin

section \<open>Errors\<close>

text \<open>
  Every \<^verbatim>\<open>raise\<close> of the modelled code is a \<^verbatim>\<open>ValueError\<close>; the model keeps one
  constructor per raise site, carrying the values the message interpolates. The
  \<^verbatim>\<open>ValueError\<close> of the built-in conversions between integers and strings is
  \<open>StrDigitLimit\<close> (\<^verbatim>\<open>str\<close> of an integer of too many digits), \<open>IntDigitLimit\<close>
  (\<^verbatim>\<open>int\<close> of too many digits) or \<open>IntInvalidLiteral\<close>. An
  exception raised inside a user-supplied \<^verbatim>\<open>computed\<close> function is not caught by the
  engine; it is carried by \<open>ComputedRaised\<close>, so that its origin stays visible.
  \<open>StoreTypeError\<close> stands for the \<^verbatim>\<open>TypeError\<close>, \<^verbatim>\<open>AttributeError\<close> or
  \<^verbatim>\<open>IndexError\<close> of an operation on an object of the wrong kind, in the model of the
  merge on an explicit store.
\<close>

datatype error =
    RowTooSmall int
  | ColumnTooSmall int
  | EmptyReference
  | InvalidCharacter nat
  | InvalidReference "nat list"
  | ColumnIndexTooSmall int
  | StrDigitLimit
  | IntDigitLimit
  | IntInvalidLiteral "nat list"
  | JaggedRows "nat list"
  | SheetNameTooLong nat
  | SheetNameInvalidChars
  | SheetNameEmpty
  | SheetWithoutTables
  | ZoomOutOfRange int
  | ColumnWidthNotPositive rat
  | TableNameEmpty
  | TableWithoutColumns
  | DuplicateColumnKeys
  | DuplicateSheetName string
  | SpreadsheetWithoutSheets
  | DuplicateSheetNames
  | ColumnKeyEmpty
  | ColumnLabelEmpty
  | SectionKeyEmpty
  | NegativeIndent int
  | StoreTypeError
  | ComputedRaised string

section \<open>Style system (core/styles/cell\_style.py)\<close>

text \<open>\<^verbatim>\<open>Color\<close> holds its normalised value (upper-case hex without \<^verbatim>\<open>#\<close>).\<close>

datatype Color = Color (color_value: string)

datatype HorizontalAlignment = HLeft | HCenter | HRight | HJustify | HDistributed

datatype VerticalAlignment = VTop | VCenter | VBottom | VJustify | VDistributed

record Alignment =
  horizontal :: "HorizontalAlignment option"
  vertical :: "VerticalAlignment option"
  wrap_text :: bool
  shrink_to_fit :: bool
  indent :: int
  text_rotation :: int

datatype BorderStyle =
  BNone | Thin | Medium | Thick | Double | Dotted | Dashed | DashDot | DashDotDot

record Border =
  border_left :: "BorderStyle option"
  border_right :: "BorderStyle option"
  border_top :: "BorderStyle option"
  border_bottom :: "BorderStyle option"
  border_color :: "Color option"

datatype UnderlineStyle = UNone | USingle | UDouble

record Font =
  family :: "string option"
  font_size :: "int option"
  bold :: bool
  italic :: bool
  underline :: UnderlineStyle
  strikethrough :: bool
  font_color :: "Color option"

datatype PatternFill =
    PNone | Solid | Gray125 | Gray0625 | DarkGray | LightGray
  | DarkHorizontal | DarkVertical | DarkDown | DarkUp | DarkGrid | DarkTrellis
  | LightHorizontal | LightVertical | LightDown | LightUp | LightGrid | LightTrellis

record Fill =
  pattern :: PatternFill
  foreground_color :: "Color option"
  background_color :: "Color option"

record CellStyle =
  style_font :: "Font option"
  style_fill :: "Fill option"
  style_border :: "Border option"
  style_alignment :: "Alignment option"
  style_number_format :: "string option"

text \<open>\<^verbatim>\<open>Border.all_sides(style, color=None)\<close>\<close>

definition all_sides :: "BorderStyle \<Rightarrow> Color option \<Rightarrow> Border" where
  "all_sides s c =
     \<lparr>border_left = Some s, border_right = Some s, border_top = Some s,
      border_bottom = Some s, border_color = c\<rparr>"

text \<open>\<^verbatim>\<open>CellStyle.header()\<close>: the built-in header preset.\<close>

definition header :: CellStyle where
  "header =
     \<lparr>style_font = Some \<lparr>family = None, font_size = Some 11, bold = True, italic = False,
                          underline = UNone, strikethrough = False, font_color = None\<rparr>,
      style_fill = Some \<lparr>pattern = Solid, foreground_color = Some (Color ''D3D3D3''),
                          background_color = None\<rparr>,
      style_border = Some (all_sides Thin None),
      style_alignment = Some \<lparr>horizontal = Some HCenter, vertical = Some VCenter,
                               wrap_text = False, shrink_to_fit = False, indent = 0,
                               text_rotation = 0\<rparr>,
      style_number_format = None\<rparr>"

text \<open>
  \<^verbatim>\<open>CellStyle.merge(self, other)\<close>: \<^verbatim>\<open>other\<close> may be \<^verbatim>\<open>None\<close>; otherwise each field is
  \<^verbatim>\<open>other.f if other.f is not None else self.f\<close>.
\<close>

fun merge :: "CellStyle \<Rightarrow> CellStyle option \<Rightarrow> CellStyle" where
  "merge self None = self"
| "merge self (Some other) =
     \<lparr>style_font = (if style_font other \<noteq> None then style_font other else style_font self),
      style_fill = (if style_fill other \<noteq> None then style_fill other else style_fill self),
      style_border =
        (if style_border other \<noteq> None then style_border other else style_border self),
      style_alignment =
        (if style_alignment other \<noteq> None then style_alignment other
         else style_alignment self),
      style_number_format =
        (if style_number_format other \<noteq> None then style_number_format other
         else style_number_format self)\<rparr>"

section \<open>Python string built-ins used by the position code\<close>

text \<open>
  A Python string is a sequence of Unicode code points. \<^verbatim>\<open>str.isalpha\<close>,
  \<^verbatim>\<open>str.isdigit\<close>, \<^verbatim>\<open>str.strip\<close>, \<^verbatim>\<open>str.upper\<close> and \<^verbatim>\<open>int\<close> consult the Unicode
  character database. Below code point 128 their answers are written out: the Latin
  letters, the decimal digits, the white space 9 to 13 and 28 to 32, and the mapping
  of a..z to A..Z. From 128 on the answers are read from the database \<open>U\<close>, a
  parameter of the model: whether a code point is alphabetic, a digit, white space,
  its full upper-case mapping (one character can become several) and its decimal
  value, if it has one. Every statement holds for every database.
\<close>

type_synonym ustring = "nat list"

record unicode =
  u_isalpha :: "nat \<Rightarrow> bool"
  u_isdigit :: "nat \<Rightarrow> bool"
  u_isspace :: "nat \<Rightarrow> bool"
  u_upper :: "nat \<Rightarrow> nat list"
  u_decimal :: "nat \<Rightarrow> nat option"

definition py_isalpha :: "unicode \<Rightarrow> nat \<Rightarrow> bool" where
  "py_isalpha U c =
     (if c < 128 then (65 \<le> c \<and> c \<le> 90) \<or> (97 \<le> c \<and> c \<le> 122) else u_isalpha U c)"

definition py_isdigit :: "unicode \<Rightarrow> nat \<Rightarrow> bool" where
  "py_isdigit U c = (if c < 128 then 48 \<le> c \<and> c \<le> 57 else u_isdigit U c)"

definition py_isspace :: "unicode \<Rightarrow> nat \<Rightarrow> bool" where
  "py_isspace U c =
     (if c < 128 then (9 \<le> c \<and> c \<le> 13) \<or> (28 \<le> c \<and> c \<le> 32) else u_isspace U c)"

text \<open>\<^verbatim>\<open>str.upper\<close> maps each character on its own.\<close>

definition py_upper_char :: "unicode \<Rightarrow> nat \<Rightarrow> ustring" where
  "py_upper_char U c =
     (if c < 128 then [if 97 \<le> c \<and> c \<le> 122 then c - 32 else c] else u_upper U c)"

definition py_upper :: "unicode \<Rightarrow> ustring \<Rightarrow> ustring" where
  "py_upper U s = concat (map (py_upper_char U) s)"

definition py_strip :: "unicode \<Rightarrow> ustring \<Rightarrow> ustring" where
  "py_strip U s = rev (dropWhile (py_isspace U) (rev (dropWhile (py_isspace U) s)))"

text \<open>
  The conversions between \<^verbatim>\<open>int\<close> and \<^verbatim>\<open>str\<close> raise \<^verbatim>\<open>ValueError\<close> beyond
  \<^verbatim>\<open>sys.get_int_max_str_digits()\<close> digits, 4300 unless the interpreter is configured
  otherwise.
\<close>

definition max_str_digits :: nat where
  "max_str_digits = 4300"

function str_nat :: "nat \<Rightarrow> ustring" where
  "str_nat n = (if n < 10 then [48 + n] else str_nat (n div 10) @ [48 + n mod 10])"
  by pat_completeness auto
termination
  by (relation "measure id") auto

text \<open>
  \<^verbatim>\<open>str(i)\<close>, as the f-string of \<^verbatim>\<open>to_a1\<close> calls it: the decimal digits, with a minus
  sign when negative; the sign does not count for the limit.
\<close>

definition py_str :: "int \<Rightarrow> error + ustring" where
  "py_str i =
     (let digits = str_nat (nat \<bar>i\<bar>) in
      if max_str_digits < length digits then Inl StrDigitLimit
      else Inr (if i < 0 then 45 # digits else digits))"

definition py_decimal :: "unicode \<Rightarrow> nat \<Rightarrow> nat option" where
  "py_decimal U c =
     (if c < 128 then (if 48 \<le> c \<and> c \<le> 57 then Some (c - 48) else None) else u_decimal U c)"

text \<open>
  \<^verbatim>\<open>int(s)\<close> on the strings \<^verbatim>\<open>from_a1\<close> passes, which have no sign, underscore or
  white space. The parser runs over the leading decimal digits (of any script) and
  counts them; it raises when they are more than the limit, and otherwise when they
  are not the whole string or the string is empty.
\<close>

definition py_int :: "unicode \<Rightarrow> ustring \<Rightarrow> error + int" where
  "py_int U s =
     (let run = takeWhile (\<lambda>c. py_decimal U c \<noteq> None) s in
      if max_str_digits < length run then Inl IntDigitLimit
      else if s = [] \<or> run \<noteq> s then Inl (IntInvalidLiteral s)
      else Inr (foldl (\<lambda>a c. 10 * a + (case py_decimal U c of Some d \<Rightarrow> int d | None \<Rightarrow> 0))
                  0 s))"

section \<open>Positions (core/models/position.py)\<close>

record CellPosition =
  row :: int
  column :: int

definition CellPosition_init :: "int \<Rightarrow> int \<Rightarrow> error + CellPosition" where
  "CellPosition_init r c =
     (if r < 1 then Inl (RowTooSmall r)
      else if c < 1 then Inl (ColumnTooSmall c)
      else Inr \<lparr>row = r, column = c\<rparr>)"

text \<open>\<^verbatim>\<open>_column_letters_to_index\<close>: \<^verbatim>\<open>result = result * 26 + (ord(char) - ord("A") + 1)\<close>.\<close>

definition column_letters_to_index :: "ustring \<Rightarrow> int" where
  "column_letters_to_index letters =
     foldl (\<lambda>result c. result * 26 + (int c - 65 + 1)) 0 letters"

text \<open>
  \<^verbatim>\<open>_column_index_to_letters\<close>: the \<^verbatim>\<open>while index > 0\<close> loop decrements, prepends
  \<^verbatim>\<open>chr(ord("A") + index % 26)\<close> and divides by 26.
\<close>

function index_to_letters_loop :: "int \<Rightarrow> ustring \<Rightarrow> ustring" where
  "index_to_letters_loop idx letters =
     (if idx > 0 then
        index_to_letters_loop ((idx - 1) div 26) (nat (65 + (idx - 1) mod 26) # letters)
      else letters)"
  by pat_completeness auto
termination
  by (relation "measure (\<lambda>(idx, letters). nat idx)") auto

definition column_index_to_letters :: "int \<Rightarrow> error + ustring" where
  "column_index_to_letters idx =
     (if idx < 1 then Inl (ColumnIndexTooSmall idx) else Inr (index_to_letters_loop idx []))"

text \<open>
  \<^verbatim>\<open>to_a1\<close>: the f-string formats the column letters first, then the row.
\<close>

definition to_a1 :: "CellPosition \<Rightarrow> error + ustring" where
  "to_a1 p =
     (case column_index_to_letters (column p) of
        Inl e \<Rightarrow> Inl e
      | Inr letters \<Rightarrow>
          (case py_str (row p) of
             Inl e \<Rightarrow> Inl e
           | Inr digits \<Rightarrow> Inr (letters @ digits)))"

text \<open>
  The character loop of \<^verbatim>\<open>from_a1\<close>: letters go to \<^verbatim>\<open>column_part\<close>, digits to
  \<^verbatim>\<open>row_part\<close>, wherever they stand; any other character raises.
\<close>

fun scan_reference ::
  "unicode \<Rightarrow> ustring \<Rightarrow> ustring \<Rightarrow> ustring \<Rightarrow> error + (ustring \<times> ustring)" where
  "scan_reference U [] column_part row_part = Inr (column_part, row_part)"
| "scan_reference U (c # cs) column_part row_part =
     (if py_isalpha U c then scan_reference U cs (column_part @ [c]) row_part
      else if py_isdigit U c then scan_reference U cs column_part (row_part @ [c])
      else Inl (InvalidCharacter c))"

definition from_a1 :: "unicode \<Rightarrow> ustring \<Rightarrow> error + CellPosition" where
  "from_a1 U reference0 =
     (let reference = py_upper U (py_strip U reference0) in
      if reference = [] then Inl EmptyReference
      else
        (case scan_reference U reference [] [] of
           Inl e \<Rightarrow> Inl e
         | Inr (column_part, row_part) \<Rightarrow>
             if column_part = [] \<or> row_part = [] then Inl (InvalidReference reference)
             else
               (case py_int U row_part of
                  Inl e \<Rightarrow> Inl e
                | Inr r \<Rightarrow> CellPosition_init r (column_letters_to_index column_part))))"

section \<open>Cells (core/models/cell.py)\<close>

text \<open>
  A cell value is any Python object; the model keeps the kinds \<^verbatim>\<open>_infer_data_type\<close>
  tells apart, and \<open>PyObject\<close> for every other object.
\<close>

datatype pyval = PyNone | PyBool bool | PyInt int | PyFloat rat | PyStr string | PyObject nat

datatype CellDataType =
  STRING | NUMBER | BOOLEAN | DATE | DATETIME | TIME | FORMULA | ERROR | BLANK

record Cell =
  cell_value :: pyval
  cell_formula :: "string option"
  cell_style :: "CellStyle option"
  cell_number_format :: "string option"
  cell_data_type :: CellDataType
  cell_comment :: "string option"
  cell_hyperlink :: "string option"

text \<open>Truth value of an \<^verbatim>\<open>Optional[str]\<close>: neither \<^verbatim>\<open>None\<close> nor the empty string.\<close>

fun str_truthy :: "string option \<Rightarrow> bool" where
  "str_truthy None = False"
| "str_truthy (Some s) = (s \<noteq> [])"

text \<open>\<^verbatim>\<open>a or b\<close> on optional objects that are always true when present.\<close>

fun opt_or :: "'a option \<Rightarrow> 'a option \<Rightarrow> 'a option" where
  "opt_or (Some a) b = Some a"
| "opt_or None b = b"

definition infer_data_type :: "pyval \<Rightarrow> string option \<Rightarrow> CellDataType" where
  "infer_data_type v f =
     (if str_truthy f then FORMULA
      else if v = PyNone \<or> v = PyStr [] then BLANK
      else (case v of
              PyBool _ \<Rightarrow> BOOLEAN
            | PyInt _ \<Rightarrow> NUMBER
            | PyFloat _ \<Rightarrow> NUMBER
            | PyStr _ \<Rightarrow> STRING
            | _ \<Rightarrow> STRING))"

text \<open>
  The dataclass constructor with \<^verbatim>\<open>__post_init__\<close>: the data type is inferred when
  not given, and a non-empty formula is made to start with \<^verbatim>\<open>=\<close>.
\<close>

definition Cell_init ::
  "pyval \<Rightarrow> string option \<Rightarrow> CellStyle option \<Rightarrow> string option \<Rightarrow> CellDataType option \<Rightarrow>
   string option \<Rightarrow> string option \<Rightarrow> Cell" where
  "Cell_init v f st nf dt cm hl =
     \<lparr>cell_value = v,
      cell_formula =
        (case f of
           None \<Rightarrow> None
         | Some s \<Rightarrow> if s \<noteq> [] \<and> hd s \<noteq> CHR ''='' then Some (CHR ''='' # s) else Some s),
      cell_style = st,
      cell_number_format = nf,
      cell_data_type = (case dt of None \<Rightarrow> infer_data_type v f | Some d \<Rightarrow> d),
      cell_comment = cm,
      cell_hyperlink = hl\<rparr>"

definition Cell_blank :: Cell where
  "Cell_blank = Cell_init PyNone None None None (Some BLANK) None None"

definition Cell_text :: "string \<Rightarrow> CellStyle option \<Rightarrow> Cell" where
  "Cell_text v st = Cell_init (PyStr v) None st None (Some STRING) None None"

definition formula_cell ::
  "string \<Rightarrow> pyval \<Rightarrow> string option \<Rightarrow> CellStyle option \<Rightarrow> Cell" where
  "formula_cell f cached_value nf st =
     Cell_init cached_value (Some f) st nf (Some FORMULA) None None"

definition with_style :: "Cell \<Rightarrow> CellStyle \<Rightarrow> Cell" where
  "with_style c st =
     Cell_init (cell_value c) (cell_formula c) (Some st) (cell_number_format c)
       (Some (cell_data_type c)) (cell_comment c) (cell_hyperlink c)"

fun merge_style :: "Cell \<Rightarrow> CellStyle option \<Rightarrow> Cell" where
  "merge_style c None = c"
| "merge_style c (Some st) =
     with_style c (case cell_style c of Some own \<Rightarrow> merge own (Some st) | None \<Rightarrow> st)"

section \<open>Tables, sheets and spreadsheets (core/models)\<close>

record Table =
  tbl_cells :: "Cell list list"
  tbl_headers :: "Cell list option"
  tbl_title :: "Cell option"
  tbl_start_position :: CellPosition

text \<open>\<^verbatim>\<open>Table.__post_init__\<close>: \<^verbatim>\<open>len(set(row_lengths)) > 1\<close> raises.\<close>

definition Table_init ::
  "Cell list list \<Rightarrow> Cell list option \<Rightarrow> Cell option \<Rightarrow> CellPosition \<Rightarrow> error + Table" where
  "Table_init cells headers title start =
     (if cells \<noteq> [] \<and> 1 < length (remdups (map length cells))
      then Inl (JaggedRows (map length cells))
      else Inr \<lparr>tbl_cells = cells, tbl_headers = headers, tbl_title = title,
                tbl_start_position = start\<rparr>)"

definition row_count :: "Table \<Rightarrow> nat" where
  "row_count t = length (tbl_cells t)"

definition has_headers :: "Table \<Rightarrow> bool" where
  "has_headers t = (case tbl_headers t of None \<Rightarrow> False | Some hs \<Rightarrow> 0 < length hs)"

definition has_title :: "Table \<Rightarrow> bool" where
  "has_title t = (tbl_title t \<noteq> None)"

text \<open>
  \<^verbatim>\<open>apply_style_to_row(row, style)\<close>, for the non-negative indices the merge passes:
  the row is replaced by the list of its cells with the style merged in.
\<close>

definition apply_style_to_row :: "Table \<Rightarrow> nat \<Rightarrow> CellStyle option \<Rightarrow> Table" where
  "apply_style_to_row t r st =
     (if r < length (tbl_cells t)
      then t\<lparr>tbl_cells := (tbl_cells t)[r := map (\<lambda>c. merge_style c st) (tbl_cells t ! r)]\<rparr>
      else t)"

text \<open>Conditional rules are carried along by the merge and never inspected.\<close>

datatype ConditionalRule = ConditionalRule (rule_id: nat)

record CellRange =
  range_start :: CellPosition
  range_end :: CellPosition

record Sheet =
  sh_name :: string
  sh_tables :: "Table list"
  sh_cells :: "CellPosition \<rightharpoonup> Cell"
  sh_conditional_rules :: "(CellRange \<times> ConditionalRule) list"
  sh_freeze_panes :: "CellPosition option"
  sh_column_widths :: "int \<rightharpoonup> rat"
  sh_row_heights :: "int \<rightharpoonup> rat"
  sh_default_column_width :: "rat option"
  sh_default_row_height :: "rat option"

text \<open>
  \<^verbatim>\<open>Sheet.__post_init__\<close>: at most 31 characters, and none of
  \<^verbatim>\<open>\ / * ? : [ ]\<close>.
\<close>

definition invalid_chars :: "char list" where
  "invalid_chars =
     [CHR 0x5C, CHR ''/'', CHR ''*'', CHR ''?'', CHR '':'', CHR ''['', CHR '']'']"

definition Sheet_init ::
  "string \<Rightarrow> CellPosition option \<Rightarrow> rat option \<Rightarrow> rat option \<Rightarrow> error + Sheet" where
  "Sheet_init name fp dcw drh =
     (if 31 < length name then Inl (SheetNameTooLong (length name))
      else if list_ex (\<lambda>c. c \<in> set name) invalid_chars then Inl SheetNameInvalidChars
      else Inr \<lparr>sh_name = name, sh_tables = [], sh_cells = Map.empty,
                sh_conditional_rules = [], sh_freeze_panes = fp,
                sh_column_widths = Map.empty, sh_row_heights = Map.empty,
                sh_default_column_width = dcw, sh_default_row_height = drh\<rparr>)"

definition add_table :: "Sheet \<Rightarrow> Table \<Rightarrow> Sheet" where
  "add_table s t = s\<lparr>sh_tables := sh_tables s @ [t]\<rparr>"

definition set_column_width :: "Sheet \<Rightarrow> int \<Rightarrow> rat \<Rightarrow> error + Sheet" where
  "set_column_width s col w =
     (if w \<le> 0 then Inl (ColumnWidthNotPositive w)
      else Inr (s\<lparr>sh_column_widths := (sh_column_widths s)(col \<mapsto> w)\<rparr>))"

record Spreadsheet =
  ss_sheets :: "Sheet list"
  ss_metadata :: "string \<rightharpoonup> pyval"
  ss_active_sheet :: "string option"

definition get_sheet :: "Spreadsheet \<Rightarrow> string \<Rightarrow> Sheet option" where
  "get_sheet ss name = find (\<lambda>s. sh_name s = name) (ss_sheets ss)"

definition add_sheet :: "Spreadsheet \<Rightarrow> Sheet \<Rightarrow> error + Spreadsheet" where
  "add_sheet ss s =
     (if get_sheet ss (sh_name s) \<noteq> None then Inl (DuplicateSheetName (sh_name s))
      else Inr (ss\<lparr>ss_sheets := ss_sheets ss @ [s],
                   ss_active_sheet :=
                     (if ss_active_sheet ss = None then Some (sh_name s)
                      else ss_active_sheet ss)\<rparr>))"

section \<open>Templates (core/templates/template.py)\<close>

type_synonym row_data = "string \<rightharpoonup> pyval"

text \<open>
  A \<^verbatim>\<open>computed\<close> function maps a row to a value or raises; \<open>Inl x\<close> is the exception
  it raised.
\<close>

record ColumnDefinition =
  col_key :: string
  col_label :: string
  col_width :: "rat option"
  col_style :: "CellStyle option"
  col_header_style :: "CellStyle option"
  col_number_format :: "string option"
  col_formula_template :: "string option"
  col_computed :: "(row_data \<Rightarrow> string + pyval) option"
  col_hidden :: bool

definition ColumnDefinition_init :: "ColumnDefinition \<Rightarrow> error + ColumnDefinition" where
  "ColumnDefinition_init c =
     (if col_key c = [] then Inl ColumnKeyEmpty
      else if col_label c = [] then Inl ColumnLabelEmpty
      else (case col_width c of
              Some w \<Rightarrow> if w \<le> 0 then Inl (ColumnWidthNotPositive w) else Inr c
            | None \<Rightarrow> Inr c))"

record SectionDefinition =
  sec_key :: string
  sec_label :: string
  sec_style :: "CellStyle option"
  sec_formula_template :: "string option"
  sec_is_total :: bool
  sec_indent_level :: int

definition SectionDefinition_init :: "SectionDefinition \<Rightarrow> error + SectionDefinition" where
  "SectionDefinition_init s =
     (if sec_key s = [] then Inl SectionKeyEmpty
      else if sec_indent_level s < 0 then Inl (NegativeIndent (sec_indent_level s))
      else Inr s)"

record TableTemplate =
  tt_name :: string
  tt_columns :: "ColumnDefinition list"
  tt_sections :: "SectionDefinition list option"
  tt_title :: "string option"
  tt_title_style :: "CellStyle option"
  tt_header_style :: "CellStyle option"
  tt_default_style :: "CellStyle option"
  tt_conditional_rules :: "ConditionalRule list"
  tt_start_position :: CellPosition
  tt_freeze_headers :: bool
  tt_show_grid :: bool
  tt_alternate_row_colors :: bool
  tt_alternate_row_style :: "CellStyle option"

definition TableTemplate_init :: "TableTemplate \<Rightarrow> error + TableTemplate" where
  "TableTemplate_init t =
     (if tt_name t = [] then Inl TableNameEmpty
      else if tt_columns t = [] then Inl TableWithoutColumns
      else if \<not> distinct (map col_key (tt_columns t)) then Inl DuplicateColumnKeys
      else Inr t)"

definition visible_columns :: "TableTemplate \<Rightarrow> ColumnDefinition list" where
  "visible_columns t = filter (\<lambda>col. \<not> col_hidden col) (tt_columns t)"

record SheetTemplate =
  st_name :: string
  st_tables :: "TableTemplate list"
  st_freeze_panes :: "CellPosition option"
  st_default_column_width :: "rat option"
  st_default_row_height :: "rat option"
  st_show_gridlines :: bool
  st_show_headers :: bool
  st_zoom_scale :: int

text \<open>
  \<^verbatim>\<open>SheetTemplate.__post_init__\<close> checks that the name is not empty and has at most
  31 characters, that there is a table, and the zoom scale. It has no check of the
  characters of the name.
\<close>

definition SheetTemplate_init :: "SheetTemplate \<Rightarrow> error + SheetTemplate" where
  "SheetTemplate_init t =
     (if st_name t = [] then Inl SheetNameEmpty
      else if 31 < length (st_name t) then Inl (SheetNameTooLong (length (st_name t)))
      else if st_tables t = [] then Inl SheetWithoutTables
      else if st_zoom_scale t < 10 \<or> 400 < st_zoom_scale t
      then Inl (ZoomOutOfRange (st_zoom_scale t))
      else Inr t)"

record SpreadsheetTemplate =
  sst_sheets :: "SheetTemplate list"
  sst_metadata :: "string \<rightharpoonup> pyval"
  sst_active_sheet :: "string option"

definition SpreadsheetTemplate_init :: "SpreadsheetTemplate \<Rightarrow> error + SpreadsheetTemplate" where
  "SpreadsheetTemplate_init t =
     (if sst_sheets t = [] then Inl SpreadsheetWithoutSheets
      else if \<not> distinct (map st_name (sst_sheets t)) then Inl DuplicateSheetNames
      else if sst_active_sheet t = None
      then Inr (t\<lparr>sst_active_sheet := Some (st_name (hd (sst_sheets t)))\<rparr>)
      else Inr t)"

section \<open>Data (core/templates/data.py)\<close>

text \<open>
  \<^verbatim>\<open>section_data\<close> is a dictionary whose length is tested; it is kept as the list of
  its items, looked up by key.
\<close>

record TableData =
  td_rows :: "row_data list"
  td_computed_values :: "string \<rightharpoonup> (row_data \<Rightarrow> string + pyval)"
  td_section_data :: "(string \<times> row_data list) list"
  td_metadata :: "string \<rightharpoonup> pyval"

text \<open>\<^verbatim>\<open>TableData()\<close>, \<^verbatim>\<open>SheetData()\<close>: every field at its default.\<close>

definition TableData_empty :: TableData where
  "TableData_empty =
     \<lparr>td_rows = [], td_computed_values = Map.empty, td_section_data = [],
      td_metadata = Map.empty\<rparr>"

definition get_section_data :: "TableData \<Rightarrow> string \<Rightarrow> row_data list" where
  "get_section_data d k =
     (case map_of (td_section_data d) k of None \<Rightarrow> [] | Some rows \<Rightarrow> rows)"

definition is_empty :: "TableData \<Rightarrow> bool" where
  "is_empty d = (length (td_rows d) = 0 \<and> length (td_section_data d) = 0)"

record SheetData =
  sd_table_data :: "string \<rightharpoonup> TableData"
  sd_metadata :: "string \<rightharpoonup> pyval"

definition SheetData_empty :: SheetData where
  "SheetData_empty = \<lparr>sd_table_data = Map.empty, sd_metadata = Map.empty\<rparr>"

record SpreadsheetData =
  ssd_sheet_data :: "string \<rightharpoonup> SheetData"
  ssd_metadata :: "string \<rightharpoonup> pyval"

section \<open>The merge engine (core/templates/merger.py)\<close>

text \<open>\<^verbatim>\<open>x or CellStyle.header()\<close> on an optional style.\<close>

definition or_header :: "CellStyle option \<Rightarrow> CellStyle" where
  "or_header st = (case st of Some s \<Rightarrow> s | None \<Rightarrow> header)"

definition create_header_cells :: "TableTemplate \<Rightarrow> Cell list" where
  "create_header_cells t =
     map (\<lambda>col. Cell_text (col_label col)
                  (Some (or_header (opt_or (col_header_style col) (tt_header_style t)))))
       (visible_columns t)"

text \<open>
  The value of a cell: the column's \<^verbatim>\<open>computed\<close> function on the row when there is
  one (its exception is not caught), \<^verbatim>\<open>row_data.get(key)\<close> otherwise.
\<close>

definition resolve_value :: "ColumnDefinition \<Rightarrow> row_data \<Rightarrow> error + pyval" where
  "resolve_value col rd =
     (case col_computed col of
        Some f \<Rightarrow> (case f rd of Inl x \<Rightarrow> Inl (ComputedRaised x) | Inr v \<Rightarrow> Inr v)
      | None \<Rightarrow> Inr (case rd (col_key col) of None \<Rightarrow> PyNone | Some v \<Rightarrow> v))"

definition value_cell :: "ColumnDefinition \<Rightarrow> TableTemplate \<Rightarrow> pyval \<Rightarrow> Cell" where
  "value_cell col t v =
     (if str_truthy (col_formula_template col)
      then formula_cell (case col_formula_template col of Some f \<Rightarrow> f | None \<Rightarrow> []) v
             (col_number_format col) (opt_or (col_style col) (tt_default_style t))
      else Cell_init v None (opt_or (col_style col) (tt_default_style t))
             (col_number_format col) None None None)"

definition create_cell_from_column ::
  "ColumnDefinition \<Rightarrow> row_data \<Rightarrow> TableTemplate \<Rightarrow> error + Cell" where
  "create_cell_from_column col rd t =
     (case resolve_value col rd of Inl e \<Rightarrow> Inl e | Inr v \<Rightarrow> Inr (value_cell col t v))"

fun row_cells_loop :: "TableTemplate \<Rightarrow> row_data \<Rightarrow> ColumnDefinition list \<Rightarrow> error + Cell list" where
  "row_cells_loop t rd [] = Inr []"
| "row_cells_loop t rd (col # cols) =
     (case create_cell_from_column col rd t of
        Inl e \<Rightarrow> Inl e
      | Inr cell \<Rightarrow>
          (case row_cells_loop t rd cols of Inl e \<Rightarrow> Inl e | Inr cells \<Rightarrow> Inr (cell # cells)))"

definition create_row_cells :: "TableTemplate \<Rightarrow> row_data \<Rightarrow> error + Cell list" where
  "create_row_cells t rd = row_cells_loop t rd (visible_columns t)"

text \<open>The loop \<^verbatim>\<open>for row_data in rows: cells.append(_create_row_cells(...))\<close>.\<close>

fun rows_loop :: "TableTemplate \<Rightarrow> row_data list \<Rightarrow> error + Cell list list" where
  "rows_loop t [] = Inr []"
| "rows_loop t (rd # rds) =
     (case create_row_cells t rd of
        Inl e \<Rightarrow> Inl e
      | Inr r \<Rightarrow> (case rows_loop t rds of Inl e \<Rightarrow> Inl e | Inr rs \<Rightarrow> Inr (r # rs)))"

definition create_section_cells ::
  "TableTemplate \<Rightarrow> row_data list \<Rightarrow> string \<Rightarrow> error + Cell list list" where
  "create_section_cells t section_rows section_key = rows_loop t section_rows"

definition total_cell :: "SectionDefinition \<Rightarrow> nat \<Rightarrow> ColumnDefinition \<Rightarrow> Cell" where
  "total_cell sec idx col =
     (if idx = 0 then Cell_text (sec_label sec) (Some (or_header (sec_style sec)))
      else if str_truthy (sec_formula_template sec)
      then formula_cell (case sec_formula_template sec of Some f \<Rightarrow> f | None \<Rightarrow> []) PyNone
             (col_number_format col) (Some (or_header (sec_style sec)))
      else Cell_blank)"

definition create_total_row :: "TableTemplate \<Rightarrow> SectionDefinition \<Rightarrow> nat \<Rightarrow> Cell list" where
  "create_total_row t sec current_row_count =
     map (\<lambda>(idx, col). total_cell sec idx col) (enumerate 0 (visible_columns t))"

text \<open>The loop over \<^verbatim>\<open>template.sections\<close>, with the accumulator \<^verbatim>\<open>cells\<close>.\<close>

fun sections_loop ::
  "TableTemplate \<Rightarrow> TableData \<Rightarrow> SectionDefinition list \<Rightarrow> Cell list list \<Rightarrow>
   error + Cell list list" where
  "sections_loop t d [] cells = Inr cells"
| "sections_loop t d (sec # rest) cells =
     (if get_section_data d (sec_key sec) = [] then sections_loop t d rest cells
      else
        (case create_section_cells t (get_section_data d (sec_key sec)) (sec_key sec) of
           Inl e \<Rightarrow> Inl e
         | Inr section_cells \<Rightarrow>
             (if str_truthy (sec_formula_template sec) \<or> sec_is_total sec
              then sections_loop t d rest
                     (cells @ section_cells @
                      [create_total_row t sec (length (cells @ section_cells))])
              else sections_loop t d rest (cells @ section_cells))))"

definition create_data_cells :: "TableTemplate \<Rightarrow> TableData \<Rightarrow> error + Cell list list" where
  "create_data_cells t d =
     (if is_empty d then Inr []
      else
        (case tt_sections t of
           None \<Rightarrow> rows_loop t (td_rows d)
         | Some secs \<Rightarrow>
             if secs \<noteq> [] then sections_loop t d secs [] else rows_loop t (td_rows d)))"

text \<open>\<^verbatim>\<open>for i in range(0, table.row_count, 2): table.apply_style_to_row(i, style)\<close>\<close>

function alternate_rows_loop :: "nat \<Rightarrow> nat \<Rightarrow> CellStyle \<Rightarrow> Table \<Rightarrow> Table" where
  "alternate_rows_loop i n st table =
     (if i < n then alternate_rows_loop (i + 2) n st (apply_style_to_row table i (Some st))
      else table)"
  by pat_completeness auto
termination
  by (relation "measure (\<lambda>(i, n, st, table). n - i)") auto

definition title_cell :: "TableTemplate \<Rightarrow> Cell option" where
  "title_cell t =
     (case tt_title t of
        None \<Rightarrow> None
      | Some s \<Rightarrow> if s \<noteq> [] then Some (Cell_text s (tt_title_style t)) else None)"

definition merge_table :: "TableTemplate \<Rightarrow> TableData \<Rightarrow> error + Table" where
  "merge_table t d =
     (case create_data_cells t d of
        Inl e \<Rightarrow> Inl e
      | Inr data_cells \<Rightarrow>
          (case Table_init data_cells (Some (create_header_cells t)) (title_cell t)
                  (tt_start_position t) of
             Inl e \<Rightarrow> Inl e
           | Inr table \<Rightarrow>
               (case tt_alternate_row_style t of
                  None \<Rightarrow> Inr table
                | Some st \<Rightarrow>
                    if tt_alternate_row_colors t
                    then Inr (alternate_rows_loop 0 (row_count table) st table)
                    else Inr table)))"

text \<open>
  \<^verbatim>\<open>for col_idx, col_def in enumerate(visible_columns, start=1): if col_def.width: ...\<close>
\<close>

fun widths_loop :: "Sheet \<Rightarrow> (nat \<times> ColumnDefinition) list \<Rightarrow> error + Sheet" where
  "widths_loop sheet [] = Inr sheet"
| "widths_loop sheet ((col_idx, col) # rest) =
     (case col_width col of
        None \<Rightarrow> widths_loop sheet rest
      | Some w \<Rightarrow>
          if w = 0 then widths_loop sheet rest
          else
            (case set_column_width sheet (int col_idx) w of
               Inl e \<Rightarrow> Inl e
             | Inr sheet' \<Rightarrow> widths_loop sheet' rest))"

definition rows_used :: "Table \<Rightarrow> int" where
  "rows_used table =
     (if has_title table then 1 else 0) + (if has_headers table then 1 else 0) +
     int (row_count table)"

definition lookup_table_data :: "SheetData \<Rightarrow> string \<Rightarrow> TableData" where
  "lookup_table_data data name =
     (case sd_table_data data name of None \<Rightarrow> TableData_empty | Some d \<Rightarrow> d)"

text \<open>
  The loop over \<^verbatim>\<open>template.tables\<close> with the cursor \<^verbatim>\<open>current_row\<close>: the table
  template is rebuilt with \<^verbatim>\<open>start_position=CellPosition(current_row, 1)\<close> and every
  other field unchanged.
\<close>

fun tables_loop :: "SheetData \<Rightarrow> TableTemplate list \<Rightarrow> Sheet \<Rightarrow> int \<Rightarrow> error + Sheet" where
  "tables_loop data [] sheet current_row = Inr sheet"
| "tables_loop data (tt # rest) sheet current_row =
     (case CellPosition_init current_row 1 of
        Inl e \<Rightarrow> Inl e
      | Inr pos \<Rightarrow>
          (case TableTemplate_init (tt\<lparr>tt_start_position := pos\<rparr>) of
             Inl e \<Rightarrow> Inl e
           | Inr positioned \<Rightarrow>
               (case merge_table positioned (lookup_table_data data (tt_name tt)) of
                  Inl e \<Rightarrow> Inl e
                | Inr table \<Rightarrow>
                    (case widths_loop (add_table sheet table)
                            (enumerate 1 (visible_columns tt)) of
                       Inl e \<Rightarrow> Inl e
                     | Inr sheet' \<Rightarrow>
                         tables_loop data rest sheet' (current_row + (rows_used table + 2))))))"

definition merge_sheet :: "SheetTemplate \<Rightarrow> SheetData \<Rightarrow> error + Sheet" where
  "merge_sheet template data =
     (case Sheet_init (st_name template) (st_freeze_panes template)
             (st_default_column_width template) (st_default_row_height template) of
        Inl e \<Rightarrow> Inl e
      | Inr sheet \<Rightarrow> tables_loop data (st_tables template) sheet 1)"

definition lookup_sheet_data :: "SpreadsheetData \<Rightarrow> string \<Rightarrow> SheetData" where
  "lookup_sheet_data data name =
     (case ssd_sheet_data data name of None \<Rightarrow> SheetData_empty | Some d \<Rightarrow> d)"

fun sheets_loop ::
  "SpreadsheetData \<Rightarrow> SheetTemplate list \<Rightarrow> Spreadsheet \<Rightarrow> error + Spreadsheet" where
  "sheets_loop data [] spreadsheet = Inr spreadsheet"
| "sheets_loop data (st # rest) spreadsheet =
     (case merge_sheet st (lookup_sheet_data data (st_name st)) of
        Inl e \<Rightarrow> Inl e
      | Inr sheet \<Rightarrow>
          (case add_sheet spreadsheet sheet of
             Inl e \<Rightarrow> Inl e
           | Inr spreadsheet' \<Rightarrow> sheets_loop data rest spreadsheet'))"

definition merge_spreadsheet :: "SpreadsheetTemplate \<Rightarrow> SpreadsheetData \<Rightarrow> error + Spreadsheet" where
  "merge_spreadsheet template data =
     sheets_loop data (sst_sheets template)
       \<lparr>ss_sheets = [], ss_metadata = sst_metadata template,
        ss_active_sheet = sst_active_sheet template\<rparr>"

declare alternate_rows_loop.simps [simp del]

section \<open>Notions used to state the properties of the A1 notation\<close>

text \<open>
  The value of a sequence of digits in base \<open>b\<close>, most significant digit first: each
  digit counts with the power of \<open>b\<close> of its place.
\<close>

fun positional :: "int \<Rightarrow> int list \<Rightarrow> int" where
  "positional b [] = 0"
| "positional b (d # ds) = d * b ^ length ds + positional b ds"

text \<open>The letters A..Z, whose values are 1..26, and the digits 0..9.\<close>

definition is_upper :: "nat \<Rightarrow> bool" where
  "is_upper c = (65 \<le> c \<and> c \<le> 90)"

definition letter_value :: "nat \<Rightarrow> int" where
  "letter_value c = int c - 64"

definition ascii_digit :: "nat \<Rightarrow> bool" where
  "ascii_digit c = (48 \<le> c \<and> c \<le> 57)"

definition digit_value :: "nat \<Rightarrow> int" where
  "digit_value c = int c - 48"

text \<open>A character that is neither alphabetic nor a digit.\<close>

definition not_alnum :: "unicode \<Rightarrow> nat \<Rightarrow> bool" where
  "not_alnum U c = (\<not> py_isalpha U c \<and> \<not> py_isdigit U c)"

text \<open>A character that \<^verbatim>\<open>int\<close> reads as a decimal digit, and what it reads it as.\<close>

definition is_decimal :: "unicode \<Rightarrow> nat \<Rightarrow> bool" where
  "is_decimal U c = (py_decimal U c \<noteq> None)"

definition decimal_value :: "unicode \<Rightarrow> nat \<Rightarrow> int" where
  "decimal_value U c = (case py_decimal U c of Some d \<Rightarrow> int d | None \<Rightarrow> 0)"

text \<open>The code points of a text written in ASCII.\<close>

definition codes :: "string \<Rightarrow> ustring" where
  "codes s = map of_char s"


text \<open>
  The entries of the Unicode character database for the code points 128 to 255, for
  the examples, which use no code point above 255: the alphabetic characters are the
  letters of the Latin-1 supplement with the ordinal indicators and the micro sign, the
  digits are the superscripts one, two and three, which have no decimal value, the
  white space is NEL and the no-break space, and upper-casing moves the small letters
  32 down except for the sharp s (SS), the y with diaeresis and the micro sign.
\<close>

definition latin1 :: unicode where
  "latin1 =
     \<lparr>u_isalpha = (\<lambda>c. c = 170 \<or> c = 181 \<or> c = 186 \<or> (192 \<le> c \<and> c \<le> 214) \<or>
                        (216 \<le> c \<and> c \<le> 246) \<or> (248 \<le> c \<and> c \<le> 255)),
      u_isdigit = (\<lambda>c. c = 178 \<or> c = 179 \<or> c = 185),
      u_isspace = (\<lambda>c. c = 133 \<or> c = 160),
      u_upper = (\<lambda>c. if c = 181 then [924]
                      else if c = 223 then [83, 83]
                      else if c = 255 then [376]
                      else if (224 \<le> c \<and> c \<le> 246) \<or> (248 \<le> c \<and> c \<le> 254) then [c - 32]
                      else [c]),
      u_decimal = (\<lambda>c. None)\<rparr>"

declare str_nat.simps [simp del] index_to_letters_loop.simps [simp del]

section \<open>Notions used to state the properties of the merge\<close>

text \<open>
  A cell as the constructor leaves it: its formula, when present and not empty, starts
  with \<^verbatim>\<open>=\<close>.
\<close>

definition normalised :: "Cell \<Rightarrow> bool" where
  "normalised c =
     (case cell_formula c of None \<Rightarrow> True | Some f \<Rightarrow> f = [] \<or> hd f = CHR ''='')"

text \<open>The cell with its style removed.\<close>

definition unstyled :: "Cell \<Rightarrow> Cell" where
  "unstyled c = c\<lparr>cell_style := None\<rparr>"


text \<open>
  The cells the specification names. A text cell holds a string and has the type
  STRING. A blank cell holds nothing. A formula cell holds a cached value and a formula
  that begins with \<^verbatim>\<open>=\<close>, which is put in front of a template that lacks it, and has
  the type FORMULA. A value cell holds a value, and its type is inferred from the value:
  BLANK for none and the empty string, BOOLEAN, NUMBER, otherwise STRING.
\<close>

definition spec_text_cell :: "string \<Rightarrow> CellStyle option \<Rightarrow> Cell" where
  "spec_text_cell s st =
     \<lparr>cell_value = PyStr s, cell_formula = None, cell_style = st, cell_number_format = None,
      cell_data_type = STRING, cell_comment = None, cell_hyperlink = None\<rparr>"

definition spec_blank_cell :: Cell where
  "spec_blank_cell =
     \<lparr>cell_value = PyNone, cell_formula = None, cell_style = None, cell_number_format = None,
      cell_data_type = BLANK, cell_comment = None, cell_hyperlink = None\<rparr>"

definition spec_formula_cell ::
  "string \<Rightarrow> pyval \<Rightarrow> string option \<Rightarrow> CellStyle option \<Rightarrow> Cell" where
  "spec_formula_cell f cached nf st =
     \<lparr>cell_value = cached,
      cell_formula = Some (if take 1 f = ''='' then f else ''='' @ f),
      cell_style = st, cell_number_format = nf, cell_data_type = FORMULA,
      cell_comment = None, cell_hyperlink = None\<rparr>"

fun spec_value_type :: "pyval \<Rightarrow> CellDataType" where
  "spec_value_type PyNone = BLANK"
| "spec_value_type (PyStr s) = (if s = [] then BLANK else STRING)"
| "spec_value_type (PyBool b) = BOOLEAN"
| "spec_value_type (PyInt i) = NUMBER"
| "spec_value_type (PyFloat q) = NUMBER"
| "spec_value_type (PyObject x) = STRING"

definition spec_value_cell :: "pyval \<Rightarrow> string option \<Rightarrow> CellStyle option \<Rightarrow> Cell" where
  "spec_value_cell v nf st =
     \<lparr>cell_value = v, cell_formula = None, cell_style = st, cell_number_format = nf,
      cell_data_type = spec_value_type v, cell_comment = None, cell_hyperlink = None\<rparr>"

text \<open>A formula template is declared when it is given and not empty.\<close>

fun declared :: "string option \<Rightarrow> string option" where
  "declared None = None"
| "declared (Some f) = (if f = [] then None else Some f)"

text \<open>Hidden columns are excluded entirely from the output.\<close>

definition spec_visible :: "TableTemplate \<Rightarrow> ColumnDefinition list" where
  "spec_visible t = [col \<leftarrow> tt_columns t. \<not> col_hidden col]"

text \<open>The first error of a list of results, or all the values.\<close>

fun collect :: "(error + 'a) list \<Rightarrow> error + 'a list" where
  "collect [] = Inr []"
| "collect (Inl e # rs) = Inl e"
| "collect (Inr x # rs) = (case collect rs of Inl e \<Rightarrow> Inl e | Inr xs \<Rightarrow> Inr (x # xs))"

text \<open>
  A data row gives one cell per visible column. The value is the result of the column's
  \<^verbatim>\<open>computed\<close> function when it has one, the row's entry under the column key
  otherwise, nothing if the row has no such entry. A column that declares a formula
  template gives a formula cell with that template and the value as cached value; any
  other column gives a value cell. The style is the column's, else the table's default;
  the number format is the column's.
\<close>

definition spec_cell_style :: "TableTemplate \<Rightarrow> ColumnDefinition \<Rightarrow> CellStyle option" where
  "spec_cell_style t col =
     (case col_style col of Some st \<Rightarrow> Some st | None \<Rightarrow> tt_default_style t)"

definition spec_value :: "ColumnDefinition \<Rightarrow> row_data \<Rightarrow> error + pyval" where
  "spec_value col rd =
     (case col_computed col of
        Some f \<Rightarrow> (case f rd of Inl x \<Rightarrow> Inl (ComputedRaised x) | Inr v \<Rightarrow> Inr v)
      | None \<Rightarrow> (case rd (col_key col) of Some v \<Rightarrow> Inr v | None \<Rightarrow> Inr PyNone))"

definition spec_data_cell :: "TableTemplate \<Rightarrow> row_data \<Rightarrow> ColumnDefinition \<Rightarrow> error + Cell" where
  "spec_data_cell t rd col =
     (case spec_value col rd of
        Inl e \<Rightarrow> Inl e
      | Inr v \<Rightarrow>
          (case declared (col_formula_template col) of
             Some f \<Rightarrow> Inr (spec_formula_cell f v (col_number_format col) (spec_cell_style t col))
           | None \<Rightarrow> Inr (spec_value_cell v (col_number_format col) (spec_cell_style t col))))"

definition spec_data_row :: "TableTemplate \<Rightarrow> row_data \<Rightarrow> error + Cell list" where
  "spec_data_row t rd = collect (map (spec_data_cell t rd) (spec_visible t))"

text \<open>
  The body of a sectioned table as the specification words it. A section gets a total
  row when it is flagged \<^verbatim>\<open>is_total\<close> or declares a formula template. The total row
  has, in the first visible column, a text cell with the section label, and in every
  other visible column a formula cell with the section's formula template and the
  column's number format when the section declares a formula template, a blank cell
  otherwise; its cells that are not blank have the section's style, else the header
  preset. A section without rows contributes nothing; a section with rows contributes
  one row per data row, in the order of the data, then its total row if it has one. The
  body is the concatenation of the sections' contributions in the declared order.
\<close>

definition spec_has_total :: "SectionDefinition \<Rightarrow> bool" where
  "spec_has_total sec = (sec_is_total sec \<or> declared (sec_formula_template sec) \<noteq> None)"

definition spec_section_style :: "SectionDefinition \<Rightarrow> CellStyle" where
  "spec_section_style sec = (case sec_style sec of Some st \<Rightarrow> st | None \<Rightarrow> header)"

definition spec_total_row :: "TableTemplate \<Rightarrow> SectionDefinition \<Rightarrow> Cell list" where
  "spec_total_row t sec =
     (case spec_visible t of
        [] \<Rightarrow> []
      | first_col # others \<Rightarrow>
          spec_text_cell (sec_label sec) (Some (spec_section_style sec)) #
          map (\<lambda>col. case declared (sec_formula_template sec) of
                       Some f \<Rightarrow> spec_formula_cell f PyNone (col_number_format col)
                                   (Some (spec_section_style sec))
                     | None \<Rightarrow> spec_blank_cell)
            others)"

definition spec_section_rows :: "TableData \<Rightarrow> SectionDefinition \<Rightarrow> row_data list" where
  "spec_section_rows d sec =
     (case map_of (td_section_data d) (sec_key sec) of Some rows \<Rightarrow> rows | None \<Rightarrow> [])"

definition spec_section_block ::
  "TableTemplate \<Rightarrow> TableData \<Rightarrow> SectionDefinition \<Rightarrow> error + Cell list list" where
  "spec_section_block t d sec =
     (if spec_section_rows d sec = [] then Inr []
      else
        (case collect (map (spec_data_row t) (spec_section_rows d sec)) of
           Inl e \<Rightarrow> Inl e
         | Inr data_rows \<Rightarrow>
             Inr (data_rows @ (if spec_has_total sec then [spec_total_row t sec] else []))))"

definition spec_body ::
  "TableTemplate \<Rightarrow> TableData \<Rightarrow> SectionDefinition list \<Rightarrow> error + Cell list list" where
  "spec_body t d secs =
     (case collect (map (spec_section_block t d) secs) of
        Inl e \<Rightarrow> Inl e
      | Inr blocks \<Rightarrow> Inr (concat blocks))"



text \<open>
  The cursor of \<^verbatim>\<open>merge_sheet\<close> as the specification words it: it starts at row 1 and
  advances by \<^verbatim>\<open>rows_used + 2\<close> after each table.
\<close>

definition cursor_after :: "Table list \<Rightarrow> int" where
  "cursor_after tables =
     foldl (\<lambda>current_row table. current_row + (rows_used table + 2)) 1 tables"

section \<open>Example templates and data\<close>

text \<open>
  A table with the columns account and value and the sections A (no total) and B
  (\<^verbatim>\<open>is_total\<close>); data with two rows for A and one row for B.
\<close>

definition ex_account :: ColumnDefinition where
  "ex_account =
     \<lparr>col_key = ''account'', col_label = ''Account'', col_width = None, col_style = None,
      col_header_style = None, col_number_format = None, col_formula_template = None,
      col_computed = None, col_hidden = False\<rparr>"

definition ex_value :: ColumnDefinition where
  "ex_value =
     \<lparr>col_key = ''value'', col_label = ''Value'', col_width = Some 12, col_style = None,
      col_header_style = None, col_number_format = Some ''0.00'', col_formula_template = None,
      col_computed = None, col_hidden = False\<rparr>"

definition ex_section :: "string \<Rightarrow> bool \<Rightarrow> SectionDefinition" where
  "ex_section k tot =
     \<lparr>sec_key = k, sec_label = k, sec_style = None, sec_formula_template = None,
      sec_is_total = tot, sec_indent_level = 0\<rparr>"

definition ex_table :: TableTemplate where
  "ex_table =
     \<lparr>tt_name = ''T'', tt_columns = [ex_account, ex_value],
      tt_sections = Some [ex_section ''A'' False, ex_section ''B'' True],
      tt_title = None, tt_title_style = None, tt_header_style = None,
      tt_default_style = None, tt_conditional_rules = [],
      tt_start_position = \<lparr>row = 1, column = 1\<rparr>, tt_freeze_headers = True,
      tt_show_grid = True, tt_alternate_row_colors = False, tt_alternate_row_style = None\<rparr>"

definition ex_row :: "string \<Rightarrow> int \<Rightarrow> row_data" where
  "ex_row a v = [''account'' \<mapsto> PyStr a, ''value'' \<mapsto> PyInt v]"

definition ex_data :: TableData where
  "ex_data =
     \<lparr>td_rows = [], td_computed_values = Map.empty,
      td_section_data = [(''A'', [ex_row ''a1'' 1, ex_row ''a2'' 2]), (''B'', [ex_row ''b1'' 3])],
      td_metadata = Map.empty\<rparr>"

text \<open>The same table with the single section A flagged as total, and alternate row colours.\<close>

definition ex_alt_style :: CellStyle where
  "ex_alt_style =
     \<lparr>style_font = None,
      style_fill = Some \<lparr>pattern = Solid, foreground_color = Some (Color ''F2F2F2''),
                          background_color = None\<rparr>,
      style_border = None, style_alignment = None, style_number_format = None\<rparr>"

definition ex_alt_table :: TableTemplate where
  "ex_alt_table =
     ex_table\<lparr>tt_sections := Some [ex_section ''A'' True],
              tt_alternate_row_colors := True, tt_alternate_row_style := Some ex_alt_style\<rparr>"




text \<open>A sheet of two tables, with data for the first only.\<close>

definition ex_sheet :: SheetTemplate where
  "ex_sheet =
     \<lparr>st_name = ''Report'',
      st_tables = [ex_table, ex_table\<lparr>tt_name := ''U'', tt_title := Some ''Second''\<rparr>],
      st_freeze_panes = None, st_default_column_width = None, st_default_row_height = None,
      st_show_gridlines = True, st_show_headers = True, st_zoom_scale = 100\<rparr>"

definition ex_sheet_data :: SheetData where
  "ex_sheet_data = \<lparr>sd_table_data = [''T'' \<mapsto> ex_data], sd_metadata = Map.empty\<rparr>"

text \<open>The same sheet template under a name that contains a slash.\<close>

definition ex_bad_sheet :: SheetTemplate where
  "ex_bad_sheet = ex_sheet\<lparr>st_name := ''a/b''\<rparr>"

text \<open>
  A table with a hidden column and a column with a formula template and a
  \<^verbatim>\<open>computed\<close> function, and four sections: A without total, B flagged
  \<^verbatim>\<open>is_total\<close>, C flagged \<^verbatim>\<open>is_total\<close> but without data, D with a formula template.
\<close>

definition ex_note :: ColumnDefinition where
  "ex_note =
     \<lparr>col_key = ''note'', col_label = ''Note'', col_width = None, col_style = None,
      col_header_style = None, col_number_format = None, col_formula_template = None,
      col_computed = None, col_hidden = True\<rparr>"

definition ex_double :: ColumnDefinition where
  "ex_double =
     \<lparr>col_key = ''double'', col_label = ''Double'', col_width = None, col_style = None,
      col_header_style = None, col_number_format = None,
      col_formula_template = Some ''B2*2'',
      col_computed =
        Some (\<lambda>rd. case rd ''value'' of Some (PyInt v) \<Rightarrow> Inr (PyInt (2 * v)) | _ \<Rightarrow> Inr PyNone),
      col_hidden = False\<rparr>"

definition ex_report_table :: TableTemplate where
  "ex_report_table =
     ex_table\<lparr>tt_columns := [ex_account, ex_note, ex_value, ex_double],
              tt_sections :=
                Some [ex_section ''A'' False, ex_section ''B'' True, ex_section ''C'' True,
                      (ex_section ''D'' False)\<lparr>sec_label := ''Total D'',
                         sec_formula_template := Some ''SUM(B2:B9)''\<rparr>]\<rparr>"

definition ex_note_row :: "string \<Rightarrow> int \<Rightarrow> row_data" where
  "ex_note_row a v = [''account'' \<mapsto> PyStr a, ''value'' \<mapsto> PyInt v, ''note'' \<mapsto> PyStr ''n'']"

definition ex_report_data :: TableData where
  "ex_report_data =
     \<lparr>td_rows = [], td_computed_values = Map.empty,
      td_section_data =
        [(''A'', [ex_note_row ''a1'' 1, ex_note_row ''a2'' 2]), (''B'', [ex_note_row ''b1'' 3]),
         (''D'', [ex_note_row ''d1'' 4])],
      td_metadata = Map.empty\<rparr>"


section \<open>Properties of the style merge\<close>

text \<open>
  C5. Merging with \<^verbatim>\<open>None\<close> returns the style itself, and merging with a style \<open>b\<close>
  is decided field by field: each of font, fill, border, alignment and number format
  is \<open>b\<close>'s when \<open>b\<close> has one and \<open>a\<close>'s otherwise. The font is taken as a whole:
  when \<open>b\<close> has a font, the merged font is exactly \<open>b\<close>'s, whatever \<open>a\<close>'s was.
\<close>

theorem merge_fieldwise_override:
  "merge a None = a \<and>
   style_font (merge a (Some b)) = (case style_font b of Some f \<Rightarrow> Some f | None \<Rightarrow> style_font a) \<and>
   style_fill (merge a (Some b)) = (case style_fill b of Some f \<Rightarrow> Some f | None \<Rightarrow> style_fill a) \<and>
   style_border (merge a (Some b)) =
     (case style_border b of Some f \<Rightarrow> Some f | None \<Rightarrow> style_border a) \<and>
   style_alignment (merge a (Some b)) =
     (case style_alignment b of Some f \<Rightarrow> Some f | None \<Rightarrow> style_alignment a) \<and>
   style_number_format (merge a (Some b)) =
     (case style_number_format b of Some f \<Rightarrow> Some f | None \<Rightarrow> style_number_format a)"
  by (simp split: option.splits)

text \<open>
  C10. The style merge is associative: merging \<open>c\<close> over the merge of \<open>b\<close> over \<open>a\<close>
  equals merging, over \<open>a\<close>, the merge of \<open>c\<close> over \<open>b\<close>.
\<close>

theorem merge_assoc:
  "merge (merge a (Some b)) (Some c) = merge a (Some (merge b (Some c)))"
proof (rule CellStyle.equality)
  show "style_font (merge (merge a (Some b)) (Some c)) =
        style_font (merge a (Some (merge b (Some c))))"
    by (cases "style_font c"; cases "style_font b"; simp)
  show "style_fill (merge (merge a (Some b)) (Some c)) =
        style_fill (merge a (Some (merge b (Some c))))"
    by (cases "style_fill c"; cases "style_fill b"; simp)
  show "style_border (merge (merge a (Some b)) (Some c)) =
        style_border (merge a (Some (merge b (Some c))))"
    by (cases "style_border c"; cases "style_border b"; simp)
  show "style_alignment (merge (merge a (Some b)) (Some c)) =
        style_alignment (merge a (Some (merge b (Some c))))"
    by (cases "style_alignment c"; cases "style_alignment b"; simp)
  show "style_number_format (merge (merge a (Some b)) (Some c)) =
        style_number_format (merge a (Some (merge b (Some c))))"
    by (cases "style_number_format c"; cases "style_number_format b"; simp)
  show "CellStyle.more (merge (merge a (Some b)) (Some c)) =
        CellStyle.more (merge a (Some (merge b (Some c))))"
    by simp
qed

section \<open>Properties of the A1 notation\<close>

lemma foldl_positional:
  "foldl (\<lambda>a d. b * a + d) k ds = k * b ^ length ds + positional b ds"
  by (induction ds arbitrary: k) (simp_all add: algebra_simps)

lemma foldl_positional_map:
  "foldl (\<lambda>a c. b * a + f c) 0 cs = positional b (map f cs)"
proof -
  have "foldl (\<lambda>a c. b * a + f c) k cs = foldl (\<lambda>a d. b * a + d) k (map f cs)" for k
    by (induction cs arbitrary: k) simp_all
  then show ?thesis by (simp add: foldl_positional)
qed

lemma column_letters_positional:
  "column_letters_to_index letters = positional 26 (map letter_value letters)"
proof -
  have "(\<lambda>result c. result * 26 + (int c - 65 + 1)) = (\<lambda>a c. 26 * a + letter_value c)"
    by (intro ext) (simp add: letter_value_def)
  then show ?thesis
    by (simp add: column_letters_to_index_def foldl_positional_map)
qed

subsection \<open>The letters of a column index\<close>

lemma letters_value:
  "0 \<le> i \<Longrightarrow>
   column_letters_to_index (index_to_letters_loop i acc) =
   foldl (\<lambda>result c. result * 26 + (int c - 65 + 1)) i acc"
proof (induction i acc rule: index_to_letters_loop.induct)
  case (1 idx letters)
  show ?case
  proof (cases "idx > 0")
    case True
    let ?q = "(idx - 1) div 26" and ?r = "(idx - 1) mod 26"
    have q: "0 \<le> ?q" using True by simp
    have r: "0 \<le> ?r" "?r < 26" by simp_all
    have "column_letters_to_index (index_to_letters_loop idx letters) =
          column_letters_to_index (index_to_letters_loop ?q (nat (65 + ?r) # letters))"
      using True by (subst index_to_letters_loop.simps) simp
    also have "\<dots> = foldl (\<lambda>result c. result * 26 + (int c - 65 + 1)) ?q (nat (65 + ?r) # letters)"
      using 1(1)[OF True q] .
    also have "\<dots> = foldl (\<lambda>result c. result * 26 + (int c - 65 + 1)) (?q * 26 + (?r + 1)) letters"
      using r by simp
    also have "?q * 26 + (?r + 1) = idx"
      by (simp add: algebra_simps)
    finally show ?thesis .
  next
    case False
    with 1(2) have "idx = 0" by simp
    then show ?thesis
      by (subst index_to_letters_loop.simps) (simp add: column_letters_to_index_def)
  qed
qed

lemma letters_upper:
  "list_all is_upper acc \<Longrightarrow> list_all is_upper (index_to_letters_loop i acc)"
proof (induction i acc rule: index_to_letters_loop.induct)
  case (1 idx letters)
  show ?case
  proof (cases "idx > 0")
    case True
    have "0 \<le> (idx - 1) mod 26" "(idx - 1) mod 26 < 26" by simp_all
    then have "is_upper (nat (65 + (idx - 1) mod 26))"
      unfolding is_upper_def by linarith
    with 1 True show ?thesis
      by (subst index_to_letters_loop.simps) simp
  next
    case False
    with 1 show ?thesis by (subst index_to_letters_loop.simps) simp
  qed
qed

lemma letters_length: "length acc \<le> length (index_to_letters_loop i acc)"
proof (induction i acc rule: index_to_letters_loop.induct)
  case (1 idx letters)
  show ?case
  proof (cases "idx > 0")
    case True
    with 1 show ?thesis
      by (subst index_to_letters_loop.simps) force
  next
    case False
    then show ?thesis by (subst index_to_letters_loop.simps) simp
  qed
qed

lemma letters_nonempty: "0 < i \<Longrightarrow> index_to_letters_loop i [] \<noteq> []"
proof -
  assume "0 < i"
  then have "index_to_letters_loop i [] =
     index_to_letters_loop ((i - 1) div 26) [nat (65 + (i - 1) mod 26)]"
    by (subst index_to_letters_loop.simps) simp
  moreover have "1 \<le> length (index_to_letters_loop ((i - 1) div 26) [nat (65 + (i - 1) mod 26)])"
    using letters_length[of "[nat (65 + (i - 1) mod 26)]" "(i - 1) div 26"] by simp
  ultimately show ?thesis by auto
qed

subsection \<open>The digits of a number\<close>

lemma str_nat_digits: "list_all ascii_digit (str_nat n) \<and> str_nat n \<noteq> []"
proof (induction n rule: str_nat.induct)
  case (1 n)
  show ?case
  proof (cases "n < 10")
    case True
    then show ?thesis
      by (subst (1 2) str_nat.simps) (simp add: ascii_digit_def)
  next
    case False
    have "n mod 10 < 10" by simp
    then have "ascii_digit (48 + n mod 10)" unfolding ascii_digit_def by linarith
    with False 1 show ?thesis
      by (subst (1 2) str_nat.simps) simp
  qed
qed

lemma str_nat_value: "positional 10 (map digit_value (str_nat n)) = int n"
proof -
  have "foldl (\<lambda>a c. 10 * a + digit_value c) 0 (str_nat n) = int n"
  proof (induction n rule: str_nat.induct)
    case (1 n)
    show ?case
    proof (cases "n < 10")
      case True
      then show ?thesis
        by (subst str_nat.simps) (simp add: digit_value_def)
    next
      case False
      have "foldl (\<lambda>a c. 10 * a + digit_value c) 0 (str_nat n) =
            10 * foldl (\<lambda>a c. 10 * a + digit_value c) 0 (str_nat (n div 10)) +
            digit_value (48 + n mod 10)"
        using False by (subst str_nat.simps) simp
      also have "\<dots> = 10 * int (n div 10) + int (n mod 10)"
        using 1[OF False] by (simp add: digit_value_def)
      also have "\<dots> = int n"
        by (metis mult_div_mod_eq of_nat_add of_nat_mult of_nat_numeral)
      finally show ?thesis .
    qed
  qed
  then show ?thesis by (simp add: foldl_positional_map)
qed

lemma str_nat_length: "1 \<le> k \<Longrightarrow> length (str_nat n) \<le> k \<longleftrightarrow> n < 10 ^ k"
proof (induction n arbitrary: k rule: str_nat.induct)
  case (1 n)
  show ?case
  proof (cases "n < 10")
    case True
    have "(10::nat) ^ 1 \<le> 10 ^ k" using 1(2) by (intro power_increasing) simp_all
    with True have "n < 10 ^ k" by simp
    with True 1(2) show ?thesis
      by (subst str_nat.simps) simp
  next
    case False
    have len: "length (str_nat n) = Suc (length (str_nat (n div 10)))"
      using False by (subst str_nat.simps) simp
    have ne: "1 \<le> length (str_nat (n div 10))"
      using str_nat_digits[of "n div 10"] by (cases "str_nat (n div 10)") simp_all
    show ?thesis
    proof (cases "k = 1")
      case True
      have "\<not> n < 10 ^ 1" using False by simp
      moreover have "\<not> Suc (length (str_nat (n div 10))) \<le> 1" using ne by linarith
      ultimately show ?thesis unfolding True len by blast
    next
      case k: False
      with 1(2) obtain k' where k': "k = Suc k'" "1 \<le> k'" by (cases k) auto
      have "length (str_nat (n div 10)) \<le> k' \<longleftrightarrow> n div 10 < 10 ^ k'"
        using 1(1)[OF False k'(2)] .
      also have "\<dots> \<longleftrightarrow> n < 10 ^ k"
        unfolding k'(1) by (simp add: div_less_iff_less_mult mult.commute)
      finally show ?thesis using len k'(1) by simp
    qed
  qed
qed

lemma max_str_digits_pos: "1 \<le> max_str_digits"
  by (simp add: max_str_digits_def)

lemma str_nat_small:
  assumes "0 \<le> r" "r < 10 ^ max_str_digits"
  shows "length (str_nat (nat r)) \<le> max_str_digits"
proof -
  from assms have "int (nat r) < int (10 ^ max_str_digits)" by simp
  then have "nat r < 10 ^ max_str_digits" by (simp only: of_nat_less_iff)
  then show ?thesis
    using str_nat_length[OF max_str_digits_pos] by simp
qed

lemma py_str_small:
  assumes "0 \<le> r" "r < 10 ^ max_str_digits"
  shows "py_str r = Inr (str_nat (nat r))"
  using str_nat_small[OF assms] assms(1) by (simp add: py_str_def Let_def)

lemma py_str_large:
  assumes "10 ^ max_str_digits \<le> r"
  shows "py_str r = Inl StrDigitLimit"
proof -
  have "(0::int) \<le> 10 ^ max_str_digits" by simp
  with assms have r: "0 \<le> r" by linarith
  from assms have "int (10 ^ max_str_digits) \<le> int (nat r)" using r by simp
  then have "\<not> nat r < 10 ^ max_str_digits" by (simp only: of_nat_le_iff not_less)
  then have "max_str_digits < length (str_nat (nat r))"
    using str_nat_length[OF max_str_digits_pos, of "nat r"] by simp
  with r show ?thesis by (simp add: py_str_def Let_def)
qed

lemma ascii_digit_decimal:
  "ascii_digit c \<Longrightarrow> py_decimal U c = Some (c - 48)"
  by (auto simp: ascii_digit_def py_decimal_def)

lemma py_int_decimal:
  assumes "s \<noteq> []" "list_all (is_decimal U) s" "length s \<le> max_str_digits"
  shows "py_int U s = Inr (positional 10 (map (decimal_value U) s))"
proof -
  have tw: "takeWhile (\<lambda>c. py_decimal U c \<noteq> None) s = s"
    using assms(2) by (simp add: takeWhile_eq_all_conv list_all_iff is_decimal_def)
  have f: "(\<lambda>a c. 10 * a + (case py_decimal U c of Some d \<Rightarrow> int d | None \<Rightarrow> 0)) =
           (\<lambda>a c. 10 * a + decimal_value U c)"
    by (intro ext) (simp add: decimal_value_def)
  have "py_int U s =
          Inr (foldl (\<lambda>a c. 10 * a + (case py_decimal U c of Some d \<Rightarrow> int d | None \<Rightarrow> 0))
                 0 s)"
    unfolding py_int_def Let_def tw using assms(1,3) by simp
  then show ?thesis by (simp only: f foldl_positional_map)
qed

lemma py_int_str_nat:
  assumes "length (str_nat n) \<le> max_str_digits"
  shows "py_int U (str_nat n) = Inr (int n)"
proof -
  have d: "list_all ascii_digit (str_nat n)" and ne: "str_nat n \<noteq> []"
    using str_nat_digits[of n] by simp_all
  from d have dec: "list_all (is_decimal U) (str_nat n)"
    by (auto simp: list_all_iff is_decimal_def ascii_digit_decimal)
  have "map (decimal_value U) (str_nat n) = map digit_value (str_nat n)"
    using d by (auto simp: list_all_iff decimal_value_def digit_value_def ascii_digit_decimal
                  ascii_digit_def)
  with py_int_decimal[OF ne dec assms] show ?thesis by (simp add: str_nat_value)
qed

subsection \<open>Parsing letters followed by digits\<close>

lemma upper_props:
  "is_upper c \<Longrightarrow> py_isalpha U c \<and> \<not> py_isspace U c \<and> py_upper_char U c = [c]"
  by (auto simp: is_upper_def py_isalpha_def py_isspace_def py_upper_char_def)

lemma digit_props:
  "ascii_digit c \<Longrightarrow>
   \<not> py_isalpha U c \<and> py_isdigit U c \<and> \<not> py_isspace U c \<and> py_upper_char U c = [c]"
  by (auto simp: ascii_digit_def py_isalpha_def py_isdigit_def py_isspace_def py_upper_char_def)

lemma py_strip_id:
  assumes "s \<noteq> []" "\<not> py_isspace U (hd s)" "\<not> py_isspace U (last s)"
  shows "py_strip U s = s"
proof -
  have "dropWhile (py_isspace U) s = s"
    using assms by (cases s) simp_all
  moreover have "dropWhile (py_isspace U) (rev s) = rev s"
    using assms by (cases "rev s") (simp_all add: last_rev [symmetric] hd_rev)
  ultimately show ?thesis by (simp add: py_strip_def)
qed

lemma scan_reference_filter:
  "scan_reference U u cp rp =
     (if list_ex (not_alnum U) u then Inl (InvalidCharacter (hd (filter (not_alnum U) u)))
      else Inr (cp @ filter (py_isalpha U) u, rp @ filter (\<lambda>c. \<not> py_isalpha U c) u))"
  by (induction u arbitrary: cp rp) (auto simp: not_alnum_def)

lemma from_a1_letters_digits:
  assumes L: "letters \<noteq> []" "list_all is_upper letters"
      and D: "digits \<noteq> []" "list_all ascii_digit digits"
  shows "from_a1 U (letters @ digits) =
           (case py_int U digits of
              Inl e \<Rightarrow> Inl e
            | Inr r \<Rightarrow> CellPosition_init r (column_letters_to_index letters))"
proof -
  let ?s = "letters @ digits"
  have hd: "\<not> py_isspace U (hd ?s)"
    using L by (cases letters) (simp_all add: upper_props)
  have lst: "\<not> py_isspace U (last ?s)"
    using D by (cases digits rule: rev_cases) (simp_all add: digit_props)
  have strip: "py_strip U ?s = ?s"
    using L hd lst by (intro py_strip_id) simp_all
  have "map (py_upper_char U) ?s = map (\<lambda>c. [c]) ?s"
    using L D by (auto simp: list_all_iff upper_props digit_props)
  then have up: "py_upper U ?s = ?s"
    unfolding py_upper_def by (simp only: concat_map_singleton list.map_ident)
  have good: "\<not> list_ex (not_alnum U) ?s"
    using L D by (auto simp: list_all_iff list_ex_iff not_alnum_def upper_props digit_props)
  have f1: "filter (py_isalpha U) ?s = letters"
    using L D by (auto simp: list_all_iff upper_props digit_props filter_empty_conv filter_id_conv)
  have f2: "filter (\<lambda>c. \<not> py_isalpha U c) ?s = digits"
    using L D by (auto simp: list_all_iff upper_props digit_props filter_empty_conv filter_id_conv)
  have scan: "scan_reference U ?s [] [] = Inr (letters, digits)"
    using good f1 f2 by (simp add: scan_reference_filter)
  show ?thesis
    using L D unfolding from_a1_def Let_def strip up by (simp add: scan)
qed

text \<open>
  C6 (amended). For every column \<open>c \<ge> 1\<close> and every row \<open>r \<ge> 1\<close> of at most 4300
  decimal digits, \<^verbatim>\<open>to_a1\<close> succeeds and its result is a non-empty sequence of the
  letters A..Z followed by a non-empty sequence of the digits 0..9; the letters, read in
  base 26 with the values A = 1, ..., Z = 26 (no zero digit), give the column; the
  digits, read in base 10, give the row; and \<^verbatim>\<open>from_a1\<close> of the text is the position.
  For a row of more than 4300 digits \<^verbatim>\<open>to_a1\<close> raises: the conversion of the row to
  text exceeds the interpreter's limit.
\<close>

theorem a1_roundtrip:
  assumes "1 \<le> r" and "1 \<le> c"
  shows
    "(r < 10 ^ max_str_digits \<longrightarrow>
        (\<exists>letters digits.
           to_a1 \<lparr>row = r, column = c\<rparr> = Inr (letters @ digits) \<and>
           letters \<noteq> [] \<and> list_all is_upper letters \<and>
           positional 26 (map letter_value letters) = c \<and>
           digits \<noteq> [] \<and> list_all ascii_digit digits \<and>
           positional 10 (map digit_value digits) = r \<and>
           from_a1 U (letters @ digits) = Inr \<lparr>row = r, column = c\<rparr>)) \<and>
     (10 ^ max_str_digits \<le> r \<longrightarrow> to_a1 \<lparr>row = r, column = c\<rparr> = Inl StrDigitLimit)"
proof (intro conjI impI)
  assume small: "r < 10 ^ max_str_digits"
  let ?L = "index_to_letters_loop c []" and ?D = "str_nat (nat r)"
  have str: "py_str r = Inr ?D"
    using assms(1) small by (intro py_str_small) simp_all
  have to: "to_a1 \<lparr>row = r, column = c\<rparr> = Inr (?L @ ?D)"
    using assms(2) by (simp add: to_a1_def column_index_to_letters_def str)
  have ne: "?L \<noteq> []"
    using assms(2) by (intro letters_nonempty) simp
  have up: "list_all is_upper ?L"
    by (rule letters_upper) simp
  have idx: "column_letters_to_index ?L = c"
    using letters_value[of c "[]"] assms(2) by simp
  then have pos: "positional 26 (map letter_value ?L) = c"
    by (simp add: column_letters_positional)
  have dg: "list_all ascii_digit ?D" "?D \<noteq> []"
    using str_nat_digits[of "nat r"] by simp_all
  have val: "positional 10 (map digit_value ?D) = r"
    using assms(1) by (simp add: str_nat_value)
  have len: "length ?D \<le> max_str_digits"
    using assms(1) small by (intro str_nat_small) simp_all
  have int: "py_int U ?D = Inr r"
    using py_int_str_nat[OF len, of U] assms(1) by simp
  have "from_a1 U (?L @ ?D) = Inr \<lparr>row = r, column = c\<rparr>"
    using from_a1_letters_digits[OF ne up dg(2) dg(1), of U] assms
    by (simp add: int idx CellPosition_init_def)
  with to ne up pos dg val
  show "\<exists>letters digits.
           to_a1 \<lparr>row = r, column = c\<rparr> = Inr (letters @ digits) \<and>
           letters \<noteq> [] \<and> list_all is_upper letters \<and>
           positional 26 (map letter_value letters) = c \<and>
           digits \<noteq> [] \<and> list_all ascii_digit digits \<and>
           positional 10 (map digit_value digits) = r \<and>
           from_a1 U (letters @ digits) = Inr \<lparr>row = r, column = c\<rparr>"
    by blast
next
  assume "10 ^ max_str_digits \<le> r"
  then have "py_str r = Inl StrDigitLimit" by (rule py_str_large)
  then show "to_a1 \<lparr>row = r, column = c\<rparr> = Inl StrDigitLimit"
    using assms(2) by (simp add: to_a1_def column_index_to_letters_def)
qed


text \<open>The theorem at row 5, column 28: the text is \<^verbatim>\<open>AB5\<close>.\<close>

theorem a1_roundtrip_witness:
  "(1::int) \<le> 5 \<and> (1::int) \<le> 28 \<and> (5::int) < 10 ^ max_str_digits \<and>
   to_a1 \<lparr>row = 5, column = 28\<rparr> = Inr (codes ''AB5'') \<and>
   from_a1 latin1 (codes ''AB5'') = Inr \<lparr>row = 5, column = 28\<rparr>"
proof -
  have t: "to_a1 \<lparr>row = 5, column = 28\<rparr> = Inr (codes ''AB5'')"
    by code_simp
  have "(10::int) ^ 1 \<le> 10 ^ max_str_digits"
    by (intro power_increasing max_str_digits_pos) simp
  then have small: "(5::int) < 10 ^ max_str_digits" by simp
  with a1_roundtrip[of 5 28 latin1] obtain letters digits where
    "to_a1 \<lparr>row = 5, column = 28\<rparr> = Inr (letters @ digits)"
    "from_a1 latin1 (letters @ digits) = Inr \<lparr>row = 5, column = 28\<rparr>"
    by auto
  with t small show ?thesis by simp
qed

text \<open>
  The claim as first stated covers every row. The position of row \<open>10\<^sup>4\<^sup>3\<^sup>0\<^sup>0\<close>,
  column 1 is valid, and \<^verbatim>\<open>to_a1\<close> raises on it.
\<close>

theorem a1_roundtrip_limit_counterexample:
  "CellPosition_init (10 ^ max_str_digits) 1 = Inr \<lparr>row = 10 ^ max_str_digits, column = 1\<rparr> \<and>
   to_a1 \<lparr>row = 10 ^ max_str_digits, column = 1\<rparr> = Inl StrDigitLimit"
proof -
  have "(1::int) \<le> 10 ^ max_str_digits" by simp
  then have "\<not> (10::int) ^ max_str_digits < 1" by linarith
  then have "CellPosition_init (10 ^ max_str_digits) 1 =
               Inr \<lparr>row = 10 ^ max_str_digits, column = 1\<rparr>"
    by (simp add: CellPosition_init_def)
  moreover have "py_str (10 ^ max_str_digits) = Inl StrDigitLimit"
    by (rule py_str_large) simp
  then have "to_a1 \<lparr>row = 10 ^ max_str_digits, column = 1\<rparr> = Inl StrDigitLimit"
    by (simp add: to_a1_def column_index_to_letters_def)
  ultimately show ?thesis by simp
qed

subsection \<open>Outcomes of parsing a reference\<close>











section \<open>Properties of the merge engine\<close>

subsection \<open>Row widths: the table constructor never rejects a merged body\<close>

lemma row_cells_loop_length:
  "row_cells_loop t rd cols = Inr cells \<Longrightarrow> length cells = length cols"
  by (induction cols arbitrary: cells) (auto split: sum.splits)

lemma create_row_cells_length:
  "create_row_cells t rd = Inr cells \<Longrightarrow> length cells = length (visible_columns t)"
  by (simp add: create_row_cells_def row_cells_loop_length)

lemma rows_loop_length:
  "rows_loop t rds = Inr rs \<Longrightarrow> length rs = length rds"
  by (induction rds arbitrary: rs) (auto split: sum.splits)

lemma rows_loop_widths:
  "rows_loop t rds = Inr rs \<Longrightarrow> \<forall>r\<in>set rs. length r = length (visible_columns t)"
  by (induction rds arbitrary: rs) (auto split: sum.splits dest: create_row_cells_length)

lemma create_total_row_length:
  "length (create_total_row t sec n) = length (visible_columns t)"
  by (simp add: create_total_row_def)

lemma sections_loop_widths:
  "sections_loop t d secs cells = Inr body \<Longrightarrow>
   \<forall>r\<in>set cells. length r = length (visible_columns t) \<Longrightarrow>
   \<forall>r\<in>set body. length r = length (visible_columns t)"
proof (induction secs arbitrary: cells)
  case Nil
  then show ?case by simp
next
  case (Cons sec rest)
  show ?case
  proof (cases "get_section_data d (sec_key sec) = []")
    case True
    with Cons show ?thesis by simp
  next
    case False
    with Cons.prems obtain sc where
      sc: "rows_loop t (get_section_data d (sec_key sec)) = Inr sc"
      by (auto simp: create_section_cells_def split: sum.splits)
    have w: "\<forall>r\<in>set (cells @ sc). length r = length (visible_columns t)"
      using rows_loop_widths[OF sc] Cons.prems(2) by auto
    show ?thesis
    proof (cases "str_truthy (sec_formula_template sec) \<or> sec_is_total sec")
      case True
      with False sc Cons.prems(1) have
        "sections_loop t d rest
           (cells @ sc @ [create_total_row t sec (length (cells @ sc))]) = Inr body"
        by (simp add: create_section_cells_def)
      moreover have "\<forall>r\<in>set (cells @ sc @ [create_total_row t sec (length (cells @ sc))]).
                        length r = length (visible_columns t)"
        using w by (auto simp: create_total_row_length)
      ultimately show ?thesis by (rule Cons.IH)
    next
      case no: False
      with False sc Cons.prems(1) have "sections_loop t d rest (cells @ sc) = Inr body"
        by (simp add: create_section_cells_def)
      then show ?thesis using w by (rule Cons.IH)
    qed
  qed
qed

lemma create_data_cells_widths:
  "create_data_cells t d = Inr body \<Longrightarrow> \<forall>r\<in>set body. length r = length (visible_columns t)"
  unfolding create_data_cells_def
  by (auto split: if_splits option.splits dest: rows_loop_widths sections_loop_widths)

lemma Table_init_uniform:
  assumes "\<forall>r\<in>set cells. length r = n"
  shows "Table_init cells hs ti p =
           Inr \<lparr>tbl_cells = cells, tbl_headers = hs, tbl_title = ti, tbl_start_position = p\<rparr>"
proof -
  have "set (map length cells) \<subseteq> {n}"
    using assms by auto
  then have "card (set (map length cells)) \<le> card {n}"
    by (intro card_mono) simp_all
  then have "length (remdups (map length cells)) \<le> 1"
    by (simp add: length_remdups_card_conv)
  then show ?thesis by (simp add: Table_init_def)
qed

subsection \<open>The alternate-row loop\<close>

lemma apply_style_to_row_fields:
  "length (tbl_cells (apply_style_to_row table i st)) = length (tbl_cells table)"
  "tbl_headers (apply_style_to_row table i st) = tbl_headers table"
  "tbl_title (apply_style_to_row table i st) = tbl_title table"
  "tbl_start_position (apply_style_to_row table i st) = tbl_start_position table"
  by (simp_all add: apply_style_to_row_def)

lemma alternate_rows_loop_fields:
  "length (tbl_cells (alternate_rows_loop i n st table)) = length (tbl_cells table) \<and>
   tbl_headers (alternate_rows_loop i n st table) = tbl_headers table \<and>
   tbl_title (alternate_rows_loop i n st table) = tbl_title table \<and>
   tbl_start_position (alternate_rows_loop i n st table) = tbl_start_position table"
proof (induction i n st table rule: alternate_rows_loop.induct)
  case (1 i n st table)
  show ?case
  proof (cases "i < n")
    case True
    with 1 show ?thesis
      by (subst (1 2 3 4) alternate_rows_loop.simps) (simp add: apply_style_to_row_fields)
  next
    case False
    then show ?thesis by (subst (1 2 3 4) alternate_rows_loop.simps) simp
  qed
qed

lemma alternate_rows_loop_nth:
  "n \<le> length (tbl_cells table) \<Longrightarrow> j < length (tbl_cells table) \<Longrightarrow>
   tbl_cells (alternate_rows_loop i n st table) ! j =
     (if i \<le> j \<and> j < n \<and> even (j - i)
      then map (\<lambda>c. merge_style c (Some st)) (tbl_cells table ! j)
      else tbl_cells table ! j)"
proof (induction i n st table rule: alternate_rows_loop.induct)
  case (1 i n st table)
  show ?case
  proof (cases "i < n")
    case True
    let ?t' = "apply_style_to_row table i (Some st)"
    have len: "length (tbl_cells ?t') = length (tbl_cells table)"
      by (simp add: apply_style_to_row_fields)
    have step: "alternate_rows_loop i n st table = alternate_rows_loop (i + 2) n st ?t'"
      using True by (subst alternate_rows_loop.simps) simp
    have IH: "tbl_cells (alternate_rows_loop (i + 2) n st ?t') ! j =
        (if i + 2 \<le> j \<and> j < n \<and> even (j - (i + 2))
         then map (\<lambda>c. merge_style c (Some st)) (tbl_cells ?t' ! j)
         else tbl_cells ?t' ! j)"
      using "1.IH"[OF True] "1.prems" len by simp
    have i_lt: "i < length (tbl_cells table)"
      using True "1.prems" by simp
    have cells': "tbl_cells ?t' ! j =
        (if j = i then map (\<lambda>c. merge_style c (Some st)) (tbl_cells table ! i)
         else tbl_cells table ! j)"
      using i_lt "1.prems" by (simp add: apply_style_to_row_def nth_list_update)
    show ?thesis
    proof (cases "j = i")
      case True
      then show ?thesis using step IH cells' \<open>i < n\<close> by simp
    next
      case False
      have "(i \<le> j \<and> j < n \<and> even (j - i)) = (i + 2 \<le> j \<and> j < n \<and> even (j - (i + 2)))"
      proof (cases "i + 2 \<le> j")
        case True
        then have "j - i = (j - (i + 2)) + 2" by simp
        then show ?thesis using True by simp
      next
        case f: False
        then have "j < i \<or> j = i + 1" using False by linarith
        then show ?thesis using f by auto
      qed
      then have eq: "(i \<le> j \<and> j < n \<and> even (j - i)) = (i + 2 \<le> j \<and> j < n \<and> even (j - (i + 2)))" .
      have c: "tbl_cells ?t' ! j = tbl_cells table ! j"
        using cells' False by simp
      show ?thesis by (simp only: step IH c eq)
    qed
  next
    case False
    then have r: "alternate_rows_loop i n st table = table"
      by (subst alternate_rows_loop.simps) simp
    from False have "\<not> (i \<le> j \<and> j < n \<and> even (j - i))" by linarith
    then show ?thesis by (simp only: r if_False)
  qed
qed

subsection \<open>Cells of a merged body are normalised\<close>

lemma Cell_init_normalised: "normalised (Cell_init v f st nf dt cm hl)"
  by (auto simp: normalised_def Cell_init_def split: option.splits)

lemma merge_style_normalised:
  "normalised c \<Longrightarrow>
   merge_style c (Some st) =
     c\<lparr>cell_style := Some (case cell_style c of None \<Rightarrow> st | Some own \<Rightarrow> merge own (Some st))\<rparr>"
  by (auto simp: normalised_def with_style_def Cell_init_def split: option.splits)

lemma row_cells_loop_normalised:
  "row_cells_loop t rd cols = Inr cells \<Longrightarrow> \<forall>c\<in>set cells. normalised c"
  by (induction cols arbitrary: cells)
     (auto simp: create_cell_from_column_def value_cell_def formula_cell_def Cell_init_normalised
           split: sum.splits)

lemma rows_loop_normalised:
  "rows_loop t rds = Inr rs \<Longrightarrow> \<forall>r\<in>set rs. \<forall>c\<in>set r. normalised c"
  by (induction rds arbitrary: rs)
     (auto simp: create_row_cells_def split: sum.splits dest!: row_cells_loop_normalised)

lemma create_total_row_normalised: "\<forall>c\<in>set (create_total_row t sec n). normalised c"
  by (auto simp: create_total_row_def total_cell_def Cell_text_def Cell_blank_def formula_cell_def
       Cell_init_normalised)

lemma sections_loop_normalised:
  "sections_loop t d secs cells = Inr body \<Longrightarrow>
   \<forall>r\<in>set cells. \<forall>c\<in>set r. normalised c \<Longrightarrow>
   \<forall>r\<in>set body. \<forall>c\<in>set r. normalised c"
proof (induction secs arbitrary: cells)
  case Nil
  then show ?case by simp
next
  case (Cons sec rest)
  show ?case
  proof (cases "get_section_data d (sec_key sec) = []")
    case True
    with Cons show ?thesis by simp
  next
    case False
    with Cons.prems obtain sc where
      sc: "rows_loop t (get_section_data d (sec_key sec)) = Inr sc"
      by (auto simp: create_section_cells_def split: sum.splits)
    have w: "\<forall>r\<in>set (cells @ sc). \<forall>c\<in>set r. normalised c"
      using rows_loop_normalised[OF sc] Cons.prems(2) by auto
    show ?thesis
    proof (cases "str_truthy (sec_formula_template sec) \<or> sec_is_total sec")
      case True
      with False sc Cons.prems(1) have
        "sections_loop t d rest
           (cells @ sc @ [create_total_row t sec (length (cells @ sc))]) = Inr body"
        by (simp add: create_section_cells_def)
      moreover have "\<forall>r\<in>set (cells @ sc @ [create_total_row t sec (length (cells @ sc))]).
                        \<forall>c\<in>set r. normalised c"
        using w create_total_row_normalised by auto
      ultimately show ?thesis by (rule Cons.IH)
    next
      case no: False
      with False sc Cons.prems(1) have "sections_loop t d rest (cells @ sc) = Inr body"
        by (simp add: create_section_cells_def)
      then show ?thesis using w by (rule Cons.IH)
    qed
  qed
qed

lemma create_data_cells_normalised:
  "create_data_cells t d = Inr body \<Longrightarrow> \<forall>r\<in>set body. \<forall>c\<in>set r. normalised c"
  unfolding create_data_cells_def
  by (auto split: if_splits option.splits dest: rows_loop_normalised sections_loop_normalised)

lemma merge_table_Inr:
  assumes "merge_table t d = Inr table"
  obtains body where "create_data_cells t d = Inr body"
    and "table =
       (let plain = \<lparr>tbl_cells = body, tbl_headers = Some (create_header_cells t),
                      tbl_title = title_cell t, tbl_start_position = tt_start_position t\<rparr>
        in case tt_alternate_row_style t of
             None \<Rightarrow> plain
           | Some st \<Rightarrow>
               if tt_alternate_row_colors t
               then alternate_rows_loop 0 (length body) st plain else plain)"
proof -
  from assms obtain body where body: "create_data_cells t d = Inr body"
    by (auto simp: merge_table_def split: sum.splits)
  have init: "Table_init body (Some (create_header_cells t)) (title_cell t) (tt_start_position t) =
      Inr \<lparr>tbl_cells = body, tbl_headers = Some (create_header_cells t),
           tbl_title = title_cell t, tbl_start_position = tt_start_position t\<rparr>"
    using create_data_cells_widths[OF body] by (rule Table_init_uniform)
  show thesis
    using assms body init
    by (intro that[of body]) (auto simp: merge_table_def row_count_def Let_def split: option.splits if_splits)
qed

lemma unstyled_merge_style:
  "normalised c \<Longrightarrow> unstyled (merge_style c (Some st)) = unstyled c"
proof -
  assume "normalised c"
  then have "merge_style c (Some st) =
     c\<lparr>cell_style := Some (case cell_style c of None \<Rightarrow> st | Some own \<Rightarrow> merge own (Some st))\<rparr>"
    by (rule merge_style_normalised)
  then show ?thesis by (simp only: unstyled_def) simp
qed

lemma merge_table_body:
  assumes "merge_table t d = Inr table"
  obtains body where "create_data_cells t d = Inr body"
    and "map (map unstyled) (tbl_cells table) = map (map unstyled) body"
    and "tt_alternate_row_colors t \<and> tt_alternate_row_style t \<noteq> None \<or> tbl_cells table = body"
proof -
  from assms obtain body where body: "create_data_cells t d = Inr body"
    and tbl: "table =
       (let plain = \<lparr>tbl_cells = body, tbl_headers = Some (create_header_cells t),
                      tbl_title = title_cell t, tbl_start_position = tt_start_position t\<rparr>
        in case tt_alternate_row_style t of
             None \<Rightarrow> plain
           | Some st \<Rightarrow>
               if tt_alternate_row_colors t
               then alternate_rows_loop 0 (length body) st plain else plain)"
    by (rule merge_table_Inr)
  let ?plain = "\<lparr>tbl_cells = body, tbl_headers = Some (create_header_cells t),
                 tbl_title = title_cell t, tbl_start_position = tt_start_position t\<rparr>"
  show thesis
  proof (cases "tt_alternate_row_colors t \<and> tt_alternate_row_style t \<noteq> None")
    case False
    then have "tbl_cells table = body"
      using tbl by (auto simp: Let_def split: option.splits)
    with body False show ?thesis by (intro that[of body]) simp_all
  next
    case True
    then obtain st where st: "tt_alternate_row_style t = Some st" by auto
    with True tbl have table: "table = alternate_rows_loop 0 (length body) st ?plain" by simp
    have len: "length (tbl_cells table) = length body"
      using alternate_rows_loop_fields[of 0 "length body" st ?plain] table by simp
    have "map unstyled (tbl_cells table ! i) = map unstyled (body ! i)" if "i < length body" for i
    proof -
      have "\<forall>c\<in>set (body ! i). normalised c"
        using create_data_cells_normalised[OF body] that by (meson nth_mem)
      then have "map unstyled (map (\<lambda>c. merge_style c (Some st)) (body ! i)) = map unstyled (body ! i)"
        by (simp add: unstyled_merge_style del: merge_style.simps)
      then show ?thesis
        using alternate_rows_loop_nth[of "length body" ?plain i 0 st] that table by simp
    qed
    then have "map (map unstyled) (tbl_cells table) = map (map unstyled) body"
      using len by (intro nth_equalityI) simp_all
    with body True show ?thesis by (intro that[of body]) simp_all
  qed
qed

lemma merge_table_start_position:
  assumes "merge_table t d = Inr table"
  shows "tbl_start_position table = tt_start_position t"
proof -
  from assms obtain body where
    tbl: "table =
       (let plain = \<lparr>tbl_cells = body, tbl_headers = Some (create_header_cells t),
                      tbl_title = title_cell t, tbl_start_position = tt_start_position t\<rparr>
        in case tt_alternate_row_style t of
             None \<Rightarrow> plain
           | Some st \<Rightarrow>
               if tt_alternate_row_colors t
               then alternate_rows_loop 0 (length body) st plain else plain)"
    by (rule merge_table_Inr)
  then show ?thesis
    by (auto simp: Let_def alternate_rows_loop_fields split: option.splits)
qed

lemma list_of_three: "length xs = 3 \<Longrightarrow> xs = [xs ! 0, xs ! 1, xs ! 2]"
  by (auto simp: numeral_3_eq_3 length_Suc_conv)

subsection \<open>Alternate row colours\<close>

text \<open>
  C4. When the template sets \<^verbatim>\<open>alternate_row_colors\<close> and has an
  \<^verbatim>\<open>alternate_row_style\<close>, the body of the merged table is the body built from the
  data with the style merged into every cell of the rows 0, 2, 4, ... and the rows
  1, 3, 5, ... unchanged, whatever kind of row stands at an index. Merging the style
  into a cell of the body changes its style only: the new style is the alternate style
  when the cell had none, and the style merge of the alternate style over the cell's
  own style otherwise.
\<close>

theorem alternate_rows_even:
  assumes "tt_alternate_row_colors t" and "tt_alternate_row_style t = Some st"
      and "merge_table t d = Inr table"
  shows "\<exists>body. create_data_cells t d = Inr body \<and>
           length (tbl_cells table) = length body \<and>
           (\<forall>i<length body.
              tbl_cells table ! i =
                (if even i then map (\<lambda>c. merge_style c (Some st)) (body ! i) else body ! i) \<and>
              (\<forall>c\<in>set (body ! i).
                 merge_style c (Some st) =
                   c\<lparr>cell_style :=
                       Some (case cell_style c of None \<Rightarrow> st
                             | Some own \<Rightarrow> merge own (Some st))\<rparr>))"
proof -
  from assms(3) obtain body where body: "create_data_cells t d = Inr body"
    and tbl: "table =
       (let plain = \<lparr>tbl_cells = body, tbl_headers = Some (create_header_cells t),
                      tbl_title = title_cell t, tbl_start_position = tt_start_position t\<rparr>
        in case tt_alternate_row_style t of
             None \<Rightarrow> plain
           | Some st \<Rightarrow>
               if tt_alternate_row_colors t
               then alternate_rows_loop 0 (length body) st plain else plain)"
    by (rule merge_table_Inr)
  let ?plain = "\<lparr>tbl_cells = body, tbl_headers = Some (create_header_cells t),
                 tbl_title = title_cell t, tbl_start_position = tt_start_position t\<rparr>"
  have table: "table = alternate_rows_loop 0 (length body) st ?plain"
    using tbl assms(1,2) by simp
  have len: "length (tbl_cells table) = length body"
    using alternate_rows_loop_fields[of 0 "length body" st ?plain] table by simp
  have rows: "tbl_cells table ! i =
      (if even i then map (\<lambda>c. merge_style c (Some st)) (body ! i) else body ! i)"
    if "i < length body" for i
    using alternate_rows_loop_nth[of "length body" ?plain i 0 st] that table by simp
  have norm: "merge_style c (Some st) =
      c\<lparr>cell_style := Some (case cell_style c of None \<Rightarrow> st | Some own \<Rightarrow> merge own (Some st))\<rparr>"
    if "i < length body" "c \<in> set (body ! i)" for i c
    using create_data_cells_normalised[OF body] that
    by (intro merge_style_normalised) (meson nth_mem)
  from body len rows norm show ?thesis by blast
qed

text \<open>
  The theorem on the table with the single total section A and two data rows: the body
  has three rows, the data row 0 and the total row 2 are restyled, the data row 1 is
  not.
\<close>

theorem alternate_rows_even_witness:
  "tt_alternate_row_colors ex_alt_table \<and>
   tt_alternate_row_style ex_alt_table = Some ex_alt_style \<and>
   \<not> isl (merge_table ex_alt_table ex_data) \<and>
   map (map cell_value) (tbl_cells (projr (merge_table ex_alt_table ex_data))) =
     [[PyStr ''a1'', PyInt 1], [PyStr ''a2'', PyInt 2], [PyStr ''A'', PyNone]] \<and>
   map (map cell_style) (tbl_cells (projr (merge_table ex_alt_table ex_data))) =
     [[Some ex_alt_style, Some ex_alt_style], [None, None],
      [Some (merge header (Some ex_alt_style)), Some ex_alt_style]]"
proof -
  let ?table = "projr (merge_table ex_alt_table ex_data)"
  have h1: "tt_alternate_row_colors ex_alt_table"
    and h2: "tt_alternate_row_style ex_alt_table = Some ex_alt_style"
    by (simp_all add: ex_alt_table_def)
  have ok: "\<not> isl (merge_table ex_alt_table ex_data)" by code_simp
  then have h3: "merge_table ex_alt_table ex_data = Inr ?table" by simp
  have b: "create_data_cells ex_alt_table ex_data =
      Inr [[Cell_init (PyStr ''a1'') None None None None None None,
            Cell_init (PyInt 1) None None (Some ''0.00'') None None None],
           [Cell_init (PyStr ''a2'') None None None None None None,
            Cell_init (PyInt 2) None None (Some ''0.00'') None None None],
           [Cell_text ''A'' (Some header), Cell_blank]]"
    by code_simp
  from alternate_rows_even[OF h1 h2 h3] b
  have len: "length (tbl_cells ?table) = 3"
    and rows: "\<forall>i<3. tbl_cells ?table ! i =
       (if even i then map (\<lambda>c. merge_style c (Some ex_alt_style))
          ([[Cell_init (PyStr ''a1'') None None None None None None,
            Cell_init (PyInt 1) None None (Some ''0.00'') None None None],
           [Cell_init (PyStr ''a2'') None None None None None None,
            Cell_init (PyInt 2) None None (Some ''0.00'') None None None],
           [Cell_text ''A'' (Some header), Cell_blank]] ! i)
        else [[Cell_init (PyStr ''a1'') None None None None None None,
            Cell_init (PyInt 1) None None (Some ''0.00'') None None None],
           [Cell_init (PyStr ''a2'') None None None None None None,
            Cell_init (PyInt 2) None None (Some ''0.00'') None None None],
           [Cell_text ''A'' (Some header), Cell_blank]] ! i)"
    by auto
  have r0: "tbl_cells ?table ! 0 =
      map (\<lambda>c. merge_style c (Some ex_alt_style))
        [Cell_init (PyStr ''a1'') None None None None None None,
         Cell_init (PyInt 1) None None (Some ''0.00'') None None None]"
    using rows[rule_format, of 0] by simp
  have r1: "tbl_cells ?table ! 1 =
        [Cell_init (PyStr ''a2'') None None None None None None,
         Cell_init (PyInt 2) None None (Some ''0.00'') None None None]"
    using rows[rule_format, of 1] by simp
  have r2: "tbl_cells ?table ! 2 =
      map (\<lambda>c. merge_style c (Some ex_alt_style)) [Cell_text ''A'' (Some header), Cell_blank]"
    using rows[rule_format, of 2] by simp
  have cells: "tbl_cells ?table = [tbl_cells ?table ! 0, tbl_cells ?table ! 1, tbl_cells ?table ! 2]"
    using len by (rule list_of_three)
  have "map (map cell_value) (tbl_cells ?table) =
     [[PyStr ''a1'', PyInt 1], [PyStr ''a2'', PyInt 2], [PyStr ''A'', PyNone]]"
    by (subst cells, simp only: r0 r1 r2)
       (simp add: Cell_init_def Cell_text_def Cell_blank_def with_style_def)
  moreover have "map (map cell_style) (tbl_cells ?table) =
     [[Some ex_alt_style, Some ex_alt_style], [None, None],
      [Some (merge header (Some ex_alt_style)), Some ex_alt_style]]"
    by (subst cells, simp only: r0 r1 r2)
       (simp add: Cell_init_def Cell_text_def Cell_blank_def with_style_def)
  ultimately show ?thesis using h1 h2 ok by simp
qed

subsection \<open>The cells, rows and bodies of the specification\<close>

lemma Cell_text_spec: "Cell_text s st = spec_text_cell s st"
  by (simp add: Cell_text_def Cell_init_def spec_text_cell_def)

lemma Cell_blank_spec: "Cell_blank = spec_blank_cell"
  by (simp add: Cell_blank_def Cell_init_def spec_blank_cell_def)

lemma formula_cell_spec: "f \<noteq> [] \<Longrightarrow> formula_cell f v nf st = spec_formula_cell f v nf st"
  by (cases f) (auto simp: formula_cell_def Cell_init_def spec_formula_cell_def)

lemma value_cell_spec: "Cell_init v None st nf None None None = spec_value_cell v nf st"
  by (cases v) (simp_all add: Cell_init_def spec_value_cell_def infer_data_type_def)

lemma visible_columns_spec: "visible_columns t = spec_visible t"
  by (simp add: visible_columns_def spec_visible_def)

lemma declared_truthy: "str_truthy ft \<longleftrightarrow> declared ft \<noteq> None"
  by (cases ft) simp_all

lemma create_cell_spec: "create_cell_from_column col rd t = spec_data_cell t rd col"
proof (cases "col_formula_template col")
  case None
  then show ?thesis
    by (simp add: create_cell_from_column_def spec_data_cell_def resolve_value_def
          spec_value_def value_cell_def value_cell_spec spec_cell_style_def
          split: option.splits sum.splits)
next
  case (Some f)
  then show ?thesis
    by (cases "f = []")
       (auto simp: create_cell_from_column_def spec_data_cell_def resolve_value_def
          spec_value_def value_cell_def value_cell_spec formula_cell_spec spec_cell_style_def
          split: option.splits sum.splits)
qed


lemma row_cells_loop_spec:
  "row_cells_loop t rd cols = collect (map (spec_data_cell t rd) cols)"
proof (induction cols)
  case Nil
  show ?case by simp
next
  case (Cons col cols)
  show ?case
    by (cases "spec_data_cell t rd col") (simp_all add: create_cell_spec Cons.IH)
qed

lemma create_row_cells_spec: "create_row_cells t rd = spec_data_row t rd"
  by (simp add: create_row_cells_def spec_data_row_def row_cells_loop_spec visible_columns_spec)

lemma rows_loop_spec: "rows_loop t rds = collect (map (spec_data_row t) rds)"
proof (induction rds)
  case Nil
  show ?case by simp
next
  case (Cons rd rds)
  show ?case
    by (cases "spec_data_row t rd") (simp_all add: create_row_cells_spec Cons.IH)
qed

lemma total_cells_after_first:
  "map (\<lambda>(idx, col). total_cell sec idx col) (enumerate (Suc n) cols) =
   map (\<lambda>col. case declared (sec_formula_template sec) of
                Some f \<Rightarrow> spec_formula_cell f PyNone (col_number_format col)
                            (Some (spec_section_style sec))
              | None \<Rightarrow> spec_blank_cell)
     cols"
proof (induction cols arbitrary: n)
  case Nil
  show ?case by simp
next
  case (Cons col cols)
  have "total_cell sec (Suc n) col =
          (case declared (sec_formula_template sec) of
             Some f \<Rightarrow> spec_formula_cell f PyNone (col_number_format col)
                         (Some (spec_section_style sec))
           | None \<Rightarrow> spec_blank_cell)"
    by (cases "sec_formula_template sec")
       (simp_all add: total_cell_def Cell_blank_spec formula_cell_spec or_header_def
          spec_section_style_def)
  with Cons.IH show ?case by simp
qed

lemma total_cell_first:
  "total_cell sec 0 col = spec_text_cell (sec_label sec) (Some (spec_section_style sec))"
  by (simp add: total_cell_def Cell_text_spec or_header_def spec_section_style_def)

lemma create_total_row_spec: "create_total_row t sec n = spec_total_row t sec"
  by (cases "spec_visible t")
     (simp_all add: create_total_row_def spec_total_row_def total_cells_after_first
        total_cell_first visible_columns_spec)

lemma get_section_data_spec: "get_section_data d (sec_key sec) = spec_section_rows d sec"
  by (simp add: get_section_data_def spec_section_rows_def)

lemma sections_loop_spec:
  "sections_loop t d secs cells =
     (case spec_body t d secs of Inl e \<Rightarrow> Inl e | Inr body \<Rightarrow> Inr (cells @ body))"
proof (induction secs arbitrary: cells)
  case Nil
  then show ?case by (simp add: spec_body_def)
next
  case (Cons sec rest)
  show ?case
  proof (cases "spec_section_rows d sec = []")
    case True
    then show ?thesis
      by (simp add: Cons.IH get_section_data_spec spec_section_block_def spec_body_def
            split: sum.splits)
  next
    case False
    show ?thesis
    proof (cases "collect (map (spec_data_row t) (spec_section_rows d sec))")
      case (Inl e)
      with False show ?thesis
        by (simp add: create_section_cells_def rows_loop_spec get_section_data_spec
              spec_section_block_def spec_body_def)
    next
      case (Inr sc)
      with False show ?thesis
        by (simp add: create_section_cells_def rows_loop_spec get_section_data_spec
              spec_section_block_def spec_body_def spec_has_total_def declared_truthy
              create_total_row_spec Cons.IH disj_commute split: sum.splits)
    qed
  qed
qed

lemma spec_body_no_data:
  "td_section_data d = [] \<Longrightarrow> spec_body t d secs = Inr []"
proof -
  assume e: "td_section_data d = []"
  have "collect (map (spec_section_block t d) secs) = Inr (map (\<lambda>sec. []) secs)"
    by (induction secs) (simp_all add: spec_section_block_def spec_section_rows_def e)
  then show ?thesis by (simp add: spec_body_def)
qed

lemma create_data_cells_spec:
  assumes "tt_sections t = Some secs" and "secs \<noteq> []"
  shows "create_data_cells t d = spec_body t d secs"
proof (cases "is_empty d")
  case True
  then have "td_section_data d = []" by (simp add: is_empty_def)
  with True show ?thesis by (simp add: create_data_cells_def spec_body_no_data)
next
  case False
  with assms show ?thesis
    by (simp add: create_data_cells_def sections_loop_spec split: sum.splits)
qed




subsection \<open>Missing data and escaping exceptions\<close>










subsection \<open>The body of a sectioned table\<close>

text \<open>
  C1. For a template with a non-empty list of sections, the body \<^verbatim>\<open>_create_data_cells\<close>
  builds is the body the specification describes: the sections in declared order, no
  row for a section without data, and for a section with data one row per data row in
  input order followed by exactly one total row if and only if the section is flagged
  \<^verbatim>\<open>is_total\<close> or declares a formula template, the total row being the label text
  cell followed, under every other visible column, by a formula cell with the section's
  template and the column's number format, or by a blank cell when the section declares
  no template; an exception of a \<^verbatim>\<open>computed\<close> function is the same exception in both.
  The body of the table \<^verbatim>\<open>merge_table\<close> returns has the same rows and cells up to the
  cell styles, and is that body exactly unless alternate row colours are applied.
\<close>

theorem sectioned_merge_body:
  assumes "tt_sections t = Some secs" and "secs \<noteq> []"
  shows "create_data_cells t d = spec_body t d secs \<and>
         (\<forall>table. merge_table t d = Inr table \<longrightarrow>
            (\<exists>body. spec_body t d secs = Inr body \<and>
               map (map unstyled) (tbl_cells table) = map (map unstyled) body \<and>
               (tt_alternate_row_colors t \<and> tt_alternate_row_style t \<noteq> None \<or>
                tbl_cells table = body)))"
proof (intro conjI allI impI)
  show spec: "create_data_cells t d = spec_body t d secs"
    using assms by (rule create_data_cells_spec)
  fix table
  assume "merge_table t d = Inr table"
  then obtain body where "create_data_cells t d = Inr body"
    and "map (map unstyled) (tbl_cells table) = map (map unstyled) body"
    and "tt_alternate_row_colors t \<and> tt_alternate_row_style t \<noteq> None \<or> tbl_cells table = body"
    by (rule merge_table_body)
  moreover from this(1) spec have "spec_body t d secs = Inr body" by simp
  ultimately show "\<exists>body. spec_body t d secs = Inr body \<and>
               map (map unstyled) (tbl_cells table) = map (map unstyled) body \<and>
               (tt_alternate_row_colors t \<and> tt_alternate_row_style t \<noteq> None \<or>
                tbl_cells table = body)"
    by blast
qed

text \<open>
  The theorem on sections A (no total, two rows) and B (\<^verbatim>\<open>is_total\<close>, one row): the
  body has exactly four rows, A's two rows, B's row and B's total row, in that order.
  And on the table with the hidden column and the sections A, B, C (no data) and D
  (formula template): six rows of three cells, none for the hidden column and none for
  C; B's total row has blank cells, D's has formula cells with the section's template
  and the number format of their column.
\<close>

theorem sectioned_merge_body_witness:
  "tt_sections ex_table = Some [ex_section ''A'' False, ex_section ''B'' True] \<and>
   \<not> isl (merge_table ex_table ex_data) \<and>
   map (map cell_value) (tbl_cells (projr (merge_table ex_table ex_data))) =
     [[PyStr ''a1'', PyInt 1], [PyStr ''a2'', PyInt 2], [PyStr ''b1'', PyInt 3],
      [PyStr ''B'', PyNone]] \<and>
   map (map cell_data_type) (tbl_cells (projr (merge_table ex_table ex_data))) =
     [[STRING, NUMBER], [STRING, NUMBER], [STRING, NUMBER], [STRING, BLANK]] \<and>
   \<not> isl (merge_table ex_report_table ex_report_data) \<and>
   map (map cell_value) (tbl_cells (projr (merge_table ex_report_table ex_report_data))) =
     [[PyStr ''a1'', PyInt 1, PyInt 2], [PyStr ''a2'', PyInt 2, PyInt 4],
      [PyStr ''b1'', PyInt 3, PyInt 6], [PyStr ''B'', PyNone, PyNone],
      [PyStr ''d1'', PyInt 4, PyInt 8], [PyStr ''Total D'', PyNone, PyNone]] \<and>
   map (map cell_formula) (tbl_cells (projr (merge_table ex_report_table ex_report_data))) =
     [[None, None, Some ''=B2*2''], [None, None, Some ''=B2*2''],
      [None, None, Some ''=B2*2''], [None, None, None],
      [None, None, Some ''=B2*2''], [None, Some ''=SUM(B2:B9)'', Some ''=SUM(B2:B9)'']] \<and>
   map (map cell_data_type) (tbl_cells (projr (merge_table ex_report_table ex_report_data))) =
     [[STRING, NUMBER, FORMULA], [STRING, NUMBER, FORMULA], [STRING, NUMBER, FORMULA],
      [STRING, BLANK, BLANK], [STRING, NUMBER, FORMULA], [STRING, FORMULA, FORMULA]] \<and>
   map cell_number_format
     (last (tbl_cells (projr (merge_table ex_report_table ex_report_data)))) =
     [None, Some ''0.00'', None]"
proof -
  have s: "tt_sections ex_table = Some [ex_section ''A'' False, ex_section ''B'' True]"
    by (simp add: ex_table_def)
  have ok: "\<not> isl (merge_table ex_table ex_data)" by code_simp
  then have m: "merge_table ex_table ex_data = Inr (projr (merge_table ex_table ex_data))"
    by simp
  have alt: "\<not> tt_alternate_row_colors ex_table" by (simp add: ex_table_def)
  have sb: "\<not> isl (spec_body ex_table ex_data [ex_section ''A'' False, ex_section ''B'' True])"
    by code_simp
  from sectioned_merge_body[OF s, of ex_data] m alt
  have c1: "tbl_cells (projr (merge_table ex_table ex_data)) =
      projr (spec_body ex_table ex_data [ex_section ''A'' False, ex_section ''B'' True])"
    by (metis list.distinct(1) sum.sel(2))
  have v1: "map (map cell_value)
        (projr (spec_body ex_table ex_data [ex_section ''A'' False, ex_section ''B'' True])) =
     [[PyStr ''a1'', PyInt 1], [PyStr ''a2'', PyInt 2], [PyStr ''b1'', PyInt 3],
      [PyStr ''B'', PyNone]]"
    by code_simp
  have d1: "map (map cell_data_type)
        (projr (spec_body ex_table ex_data [ex_section ''A'' False, ex_section ''B'' True])) =
     [[STRING, NUMBER], [STRING, NUMBER], [STRING, NUMBER], [STRING, BLANK]]"
    by code_simp
  let ?secs = "[ex_section ''A'' False, ex_section ''B'' True, ex_section ''C'' True,
                (ex_section ''D'' False)\<lparr>sec_label := ''Total D'',
                   sec_formula_template := Some ''SUM(B2:B9)''\<rparr>]"
  have s2: "tt_sections ex_report_table = Some ?secs"
    by (simp add: ex_report_table_def)
  have ok2: "\<not> isl (merge_table ex_report_table ex_report_data)" by code_simp
  then have m2: "merge_table ex_report_table ex_report_data =
      Inr (projr (merge_table ex_report_table ex_report_data))"
    by simp
  have alt2: "\<not> tt_alternate_row_colors ex_report_table"
    by (simp add: ex_report_table_def ex_table_def)
  from sectioned_merge_body[OF s2, of ex_report_data] m2 alt2
  have c2: "tbl_cells (projr (merge_table ex_report_table ex_report_data)) =
      projr (spec_body ex_report_table ex_report_data ?secs)"
    by (metis list.distinct(1) sum.sel(2))
  have v2: "map (map cell_value) (projr (spec_body ex_report_table ex_report_data ?secs)) =
     [[PyStr ''a1'', PyInt 1, PyInt 2], [PyStr ''a2'', PyInt 2, PyInt 4],
      [PyStr ''b1'', PyInt 3, PyInt 6], [PyStr ''B'', PyNone, PyNone],
      [PyStr ''d1'', PyInt 4, PyInt 8], [PyStr ''Total D'', PyNone, PyNone]]"
    by code_simp
  have f2: "map (map cell_formula) (projr (spec_body ex_report_table ex_report_data ?secs)) =
     [[None, None, Some ''=B2*2''], [None, None, Some ''=B2*2''],
      [None, None, Some ''=B2*2''], [None, None, None],
      [None, None, Some ''=B2*2''], [None, Some ''=SUM(B2:B9)'', Some ''=SUM(B2:B9)'']]"
    by code_simp
  have d2: "map (map cell_data_type) (projr (spec_body ex_report_table ex_report_data ?secs)) =
     [[STRING, NUMBER, FORMULA], [STRING, NUMBER, FORMULA], [STRING, NUMBER, FORMULA],
      [STRING, BLANK, BLANK], [STRING, NUMBER, FORMULA], [STRING, FORMULA, FORMULA]]"
    by code_simp
  have n2: "map cell_number_format
        (last (projr (spec_body ex_report_table ex_report_data ?secs))) =
     [None, Some ''0.00'', None]"
    by code_simp
  show ?thesis
    unfolding c1 c2 using s ok ok2 v1 d1 v2 f2 d2 n2 by (simp only: simp_thms)
qed

subsection \<open>The row cursor of a sheet\<close>

lemma widths_loop_tables:
  "widths_loop sheet cols = Inr sheet' \<Longrightarrow> sh_tables sheet' = sh_tables sheet"
proof (induction cols arbitrary: sheet)
  case Nil
  then show ?case by simp
next
  case (Cons a cols)
  obtain col_idx col where a: "a = (col_idx, col)" by (cases a)
  show ?case
  proof (cases "col_width col")
    case None
    with Cons a show ?thesis by simp
  next
    case (Some w)
    show ?thesis
    proof (cases "w = 0")
      case True
      with Cons a Some show ?thesis by simp
    next
      case False
      with Cons.prems a Some obtain s1 where
        s1: "set_column_width sheet (int col_idx) w = Inr s1" and
        rest: "widths_loop s1 cols = Inr sheet'"
        by (auto split: sum.splits)
      from s1 have "sh_tables s1 = sh_tables sheet"
        by (auto simp: set_column_width_def split: if_splits)
      with Cons.IH[OF rest] show ?thesis by simp
    qed
  qed
qed

lemma tables_loop_structure:
  "tables_loop data tts sheet cur = Inr sheet' \<Longrightarrow>
   \<exists>new. sh_tables sheet' = sh_tables sheet @ new \<and> length new = length tts \<and>
     (\<forall>i<length tts.
        merge_table
          ((tts ! i)\<lparr>tt_start_position :=
              \<lparr>row = foldl (\<lambda>c tb. c + (rows_used tb + 2)) cur (take i new), column = 1\<rparr>\<rparr>)
          (lookup_table_data data (tt_name (tts ! i))) = Inr (new ! i))"
proof (induction tts arbitrary: sheet cur)
  case Nil
  then show ?case by simp
next
  case (Cons tt rest)
  from Cons.prems obtain pos positioned table sheet1 where
    pos: "CellPosition_init cur 1 = Inr pos" and
    tinit: "TableTemplate_init (tt\<lparr>tt_start_position := pos\<rparr>) = Inr positioned" and
    mt: "merge_table positioned (lookup_table_data data (tt_name tt)) = Inr table" and
    wl: "widths_loop (add_table sheet table) (enumerate 1 (visible_columns tt)) = Inr sheet1" and
    loop: "tables_loop data rest sheet1 (cur + (rows_used table + 2)) = Inr sheet'"
    by (auto split: sum.splits)
  from pos have pos_eq: "pos = \<lparr>row = cur, column = 1\<rparr>"
    by (auto simp: CellPosition_init_def split: if_splits)
  from tinit have positioned: "positioned = tt\<lparr>tt_start_position := pos\<rparr>"
    by (auto simp: TableTemplate_init_def split: if_splits)
  have t1: "sh_tables sheet1 = sh_tables sheet @ [table]"
    using widths_loop_tables[OF wl] by (simp add: add_table_def)
  from Cons.IH[OF loop] obtain new where
    n1: "sh_tables sheet' = sh_tables sheet1 @ new" and
    n2: "length new = length rest" and
    n3: "\<forall>i<length rest.
        merge_table
          ((rest ! i)\<lparr>tt_start_position :=
              \<lparr>row = foldl (\<lambda>c tb. c + (rows_used tb + 2)) (cur + (rows_used table + 2))
                       (take i new), column = 1\<rparr>\<rparr>)
          (lookup_table_data data (tt_name (rest ! i))) = Inr (new ! i)"
    by blast
  let ?new = "table # new"
  have "sh_tables sheet' = sh_tables sheet @ ?new"
    using n1 t1 by simp
  moreover have "length ?new = length (tt # rest)"
    using n2 by simp
  moreover have "merge_table
          (((tt # rest) ! i)\<lparr>tt_start_position :=
              \<lparr>row = foldl (\<lambda>c tb. c + (rows_used tb + 2)) cur (take i ?new), column = 1\<rparr>\<rparr>)
          (lookup_table_data data (tt_name ((tt # rest) ! i))) = Inr (?new ! i)"
    if "i < length (tt # rest)" for i
  proof (cases i)
    case 0
    with mt positioned pos_eq show ?thesis by simp
  next
    case (Suc j)
    with that have "j < length rest" by simp
    with n3 Suc show ?thesis by simp
  qed
  ultimately show ?case by blast
qed

text \<open>
  C2. When \<^verbatim>\<open>merge_sheet\<close> returns a sheet, it has one table per table template, in
  order. The table at index \<open>i\<close> is the result of \<^verbatim>\<open>merge_table\<close> on the template at
  index \<open>i\<close> with its start position set to (cursor, 1) and on the data looked up by the
  template's name, and its start position is (cursor, 1), where the cursor is 1 for the
  first table and grows after each table by that table's
  (1 if it has a title) + (1 if it has headers) + (number of body rows) + 2.
\<close>

theorem merge_sheet_cursor:
  assumes "merge_sheet template data = Inr sheet"
  shows "length (sh_tables sheet) = length (st_tables template) \<and>
         (\<forall>i<length (st_tables template).
            tbl_start_position (sh_tables sheet ! i) =
              \<lparr>row = cursor_after (take i (sh_tables sheet)), column = 1\<rparr> \<and>
            merge_table
              ((st_tables template ! i)\<lparr>tt_start_position :=
                  \<lparr>row = cursor_after (take i (sh_tables sheet)), column = 1\<rparr>\<rparr>)
              (lookup_table_data data (tt_name (st_tables template ! i))) =
              Inr (sh_tables sheet ! i)) \<and>
         cursor_after [] = 1 \<and>
         (\<forall>tables table.
            cursor_after (tables @ [table]) =
              cursor_after tables +
              ((if tbl_title table \<noteq> None then 1 else 0) +
               (if tbl_headers table \<noteq> None \<and> tbl_headers table \<noteq> Some [] then 1 else 0) +
               int (length (tbl_cells table)) + 2))"
proof -
  from assms obtain sheet0 where
    s0: "Sheet_init (st_name template) (st_freeze_panes template)
           (st_default_column_width template) (st_default_row_height template) = Inr sheet0" and
    loop: "tables_loop data (st_tables template) sheet0 1 = Inr sheet"
    by (auto simp: merge_sheet_def split: sum.splits)
  from s0 have e: "sh_tables sheet0 = []"
    by (auto simp: Sheet_init_def split: if_splits)
  from tables_loop_structure[OF loop] e obtain new where
    n1: "sh_tables sheet = new" and
    n2: "length new = length (st_tables template)" and
    n3: "\<forall>i<length (st_tables template).
        merge_table
          ((st_tables template ! i)\<lparr>tt_start_position :=
              \<lparr>row = cursor_after (take i new), column = 1\<rparr>\<rparr>)
          (lookup_table_data data (tt_name (st_tables template ! i))) = Inr (new ! i)"
    by (auto simp: cursor_after_def)
  have pos: "tbl_start_position (new ! i) = \<lparr>row = cursor_after (take i new), column = 1\<rparr>"
    if "i < length (st_tables template)" for i
    using merge_table_start_position[OF n3[rule_format, OF that]] by simp
  have c0: "cursor_after [] = 1" by (simp add: cursor_after_def)
  have c1: "cursor_after (tables @ [table]) =
              cursor_after tables +
              ((if tbl_title table \<noteq> None then 1 else 0) +
               (if tbl_headers table \<noteq> None \<and> tbl_headers table \<noteq> Some [] then 1 else 0) +
               int (length (tbl_cells table)) + 2)" for tables table
    by (auto simp: cursor_after_def rows_used_def has_title_def has_headers_def row_count_def
          split: option.splits)
  from n1 n2 n3 pos c0 c1 show ?thesis by simp
qed

text \<open>
  The theorem on the sheet of two tables: the first table has a header row and four body
  rows and starts at row 1, so the second starts at row 1 + 5 + 2 = 8.
\<close>

theorem merge_sheet_cursor_witness:
  "\<not> isl (merge_sheet ex_sheet ex_sheet_data) \<and>
   map tbl_start_position (sh_tables (projr (merge_sheet ex_sheet ex_sheet_data))) =
     [\<lparr>row = 1, column = 1\<rparr>, \<lparr>row = 8, column = 1\<rparr>] \<and>
   map rows_used (sh_tables (projr (merge_sheet ex_sheet ex_sheet_data))) = [5, 2]"
proof -
  let ?sheet = "projr (merge_sheet ex_sheet ex_sheet_data)"
  have ok: "\<not> isl (merge_sheet ex_sheet ex_sheet_data)" by code_simp
  then have m: "merge_sheet ex_sheet ex_sheet_data = Inr ?sheet" by simp
  have n: "length (st_tables ex_sheet) = 2" by (simp add: ex_sheet_def)
  have ru: "map rows_used (sh_tables ?sheet) = [5, 2]" by code_simp
  have c: "cursor_after (take 0 (sh_tables ?sheet)) = 1"
    "cursor_after (take 1 (sh_tables ?sheet)) = 8"
    by code_simp+
  from merge_sheet_cursor[OF m] n c
  have len: "length (sh_tables ?sheet) = 2"
    and p0: "tbl_start_position (sh_tables ?sheet ! 0) = \<lparr>row = 1, column = 1\<rparr>"
    and p1: "tbl_start_position (sh_tables ?sheet ! 1) = \<lparr>row = 8, column = 1\<rparr>"
    by auto
  have "sh_tables ?sheet = [sh_tables ?sheet ! 0, sh_tables ?sheet ! 1]"
    using len by (intro nth_equalityI) (auto simp: nth_Cons' less_Suc_eq numeral_2_eq_2)
  then have "map tbl_start_position (sh_tables ?sheet) =
      [tbl_start_position (sh_tables ?sheet ! 0), tbl_start_position (sh_tables ?sheet ! 1)]"
    by (metis list.simps(8,9))
  with ok p0 p1 ru show ?thesis by simp
qed

subsection \<open>Sheet names\<close>

text \<open>
  C8. \<^verbatim>\<open>SheetTemplate.__post_init__\<close> lets a name with a forbidden character pass:
  the template named \<^verbatim>\<open>a/b\<close> is constructed, and the name is rejected only by the
  \<^verbatim>\<open>Sheet\<close> constructor that \<^verbatim>\<open>merge_sheet\<close> calls.
\<close>

theorem sheet_name_check_deferred:
  "SheetTemplate_init ex_bad_sheet = Inr ex_bad_sheet \<and>
   Sheet_init (st_name ex_bad_sheet) None None None = Inl SheetNameInvalidChars \<and>
   merge_sheet ex_bad_sheet ex_sheet_data = Inl SheetNameInvalidChars"
  by (simp add: SheetTemplate_init_def ex_bad_sheet_def ex_sheet_def merge_sheet_def
        Sheet_init_def invalid_chars_def)

end
